theory Spec2Isabelle
  imports Complex_Main "HOL-Library.AList"
begin

section \<open>Numbers, points and gesture labels\<close>

text \<open>
  JavaScript numbers are modelled as the real numbers: coordinates, distances, the camera
  distance and the scene rotation are \<^typ>\<open>real\<close>, and rounding of IEEE doubles is not
  part of the model. Times read from \<open>Date.now()\<close> are whole milliseconds, modelled as
  \<^typ>\<open>int\<close>.

  A landmark, a pinch centre and a mesh position are objects with the three fields
  \<open>x\<close>, \<open>y\<close>, \<open>z\<close>; the selectors are called \<open>px\<close>, \<open>py\<close>, \<open>pz\<close>.
\<close>

datatype Point3 = Point3 (px: real) (py: real) (pz: real)

datatype gesture =
    NONE | UNKNOWN | OPEN_PALM | CLOSED | PINCH | VICTORY | THUMBS_UP
  | SWIPE_LEFT | SWIPE_RIGHT | ZOOM_IN | ZOOM_OUT

datatype error = TypeError | SyntaxError

text \<open>\<open>Math.round\<close> rounds to the nearest integer, halves towards plus infinity.\<close>

definition Math_round :: "real \<Rightarrow> real" where
  "Math_round v = of_int \<lfloor>v + 1 / 2\<rfloor>"

definition Math_floor :: "real \<Rightarrow> real" where
  "Math_floor v = of_int \<lfloor>v\<rfloor>"

text \<open>
  \<open>push\<close> followed by one conditional \<open>shift\<close>: the pattern of all three buffers of the
  recognizer.
\<close>

definition push_shift :: "nat \<Rightarrow> 'a list \<Rightarrow> 'a \<Rightarrow> 'a list" where
  "push_shift cap xs v = (let ys = xs @ [v] in if length ys > cap then tl ys else ys)"

section \<open>GestureRecognizer\<close>

record HandAnalysis =
  gesture_of :: gesture
  isPinching_of :: bool
  isFist_of :: bool
  center :: Point3
  pinchCenter :: Point3

text \<open>
  The fields that the constructor sets and nothing changes afterwards are constants;
  \<open>pinchThreshold\<close> depends on the trainer and stays a field. The recognizer's
  \<open>history\<close> (palm centres for the swipe) is called \<open>swipe_history\<close>, as the voxel
  world has a \<open>history\<close> of its own.
\<close>

record GestureRecognizer =
  pinchThreshold :: real
  swipe_history :: "Point3 list"
  gestureHistory :: "gesture list"
  lastStableGesture :: gesture
  positionBuffer :: "Point3 list"

definition historySize :: nat where "historySize = 15"
definition swipeThreshold :: real where "swipeThreshold = 5 / 100"
definition gestureHistorySize :: nat where "gestureHistorySize = 10"
definition gestureConfidenceThreshold :: real where "gestureConfidenceThreshold = 6 / 10"
definition positionBufferSize :: nat where "positionBufferSize = 5"

text \<open>
  \<open>trainer?.getPersonalizedThreshold('pinch')\<close> is a number or \<open>null\<close>; \<open>||\<close> takes the
  default for \<open>null\<close> and for the falsy number \<open>0\<close>.
\<close>

definition constructor :: "real option \<Rightarrow> GestureRecognizer" where
  "constructor personalizedPinch =
     \<lparr> pinchThreshold =
         (case personalizedPinch of
            None \<Rightarrow> 5 / 100
          | Some t \<Rightarrow> if t = 0 then 5 / 100 else t),
       swipe_history = [],
       gestureHistory = [],
       lastStableGesture = NONE,
       positionBuffer = [] \<rparr>"

subsection \<open>analyzeHand\<close>

definition dist_p :: "Point3 \<Rightarrow> Point3 \<Rightarrow> real" where
  "dist_p p1 p2 = sqrt ((px p1 - px p2)\<^sup>2 + (py p1 - py p2)\<^sup>2 + (pz p1 - pz p2)\<^sup>2)"

text \<open>
  The local constants of \<open>analyzeHand\<close>, one definition each, over the landmark array
  \<open>lm\<close>. \<open>wrist\<close> and \<open>palmBase\<close> are both \<open>landmarks[0]\<close>.
\<close>

definition pinchDist :: "Point3 list \<Rightarrow> real" where
  "pinchDist lm = dist_p (lm ! 4) (lm ! 8)"

definition thumbIndexClose :: "real \<Rightarrow> Point3 list \<Rightarrow> bool" where
  "thumbIndexClose thr lm \<longleftrightarrow> pinchDist lm < thr"

definition middleExtended :: "Point3 list \<Rightarrow> bool" where
  "middleExtended lm \<longleftrightarrow> dist_p (lm ! 12) (lm ! 0) > dist_p (lm ! 9) (lm ! 0) * (11 / 10)"

definition ringExtended :: "Point3 list \<Rightarrow> bool" where
  "ringExtended lm \<longleftrightarrow> dist_p (lm ! 16) (lm ! 0) > dist_p (lm ! 13) (lm ! 0) * (11 / 10)"

definition pinkyExtended :: "Point3 list \<Rightarrow> bool" where
  "pinkyExtended lm \<longleftrightarrow> dist_p (lm ! 20) (lm ! 0) > dist_p (lm ! 17) (lm ! 0) * (11 / 10)"

definition otherFingersExtended :: "Point3 list \<Rightarrow> bool" where
  "otherFingersExtended lm \<longleftrightarrow> middleExtended lm \<and> ringExtended lm \<and> pinkyExtended lm"

definition isPinching :: "real \<Rightarrow> Point3 list \<Rightarrow> bool" where
  "isPinching thr lm \<longleftrightarrow> thumbIndexClose thr lm \<and> otherFingersExtended lm"

definition curlFactor :: real where "curlFactor = 13 / 10"

definition indexCurled :: "Point3 list \<Rightarrow> bool" where
  "indexCurled lm \<longleftrightarrow> dist_p (lm ! 8) (lm ! 0) < dist_p (lm ! 5) (lm ! 0) * curlFactor"

definition middleCurled :: "Point3 list \<Rightarrow> bool" where
  "middleCurled lm \<longleftrightarrow> dist_p (lm ! 12) (lm ! 0) < dist_p (lm ! 9) (lm ! 0) * curlFactor"

definition ringCurled :: "Point3 list \<Rightarrow> bool" where
  "ringCurled lm \<longleftrightarrow> dist_p (lm ! 16) (lm ! 0) < dist_p (lm ! 13) (lm ! 0) * curlFactor"

definition pinkyCurled :: "Point3 list \<Rightarrow> bool" where
  "pinkyCurled lm \<longleftrightarrow> dist_p (lm ! 20) (lm ! 0) < dist_p (lm ! 17) (lm ! 0) * curlFactor"

definition curledCount :: "Point3 list \<Rightarrow> nat" where
  "curledCount lm =
     length (filter (\<lambda>b. b) [indexCurled lm, middleCurled lm, ringCurled lm, pinkyCurled lm])"

definition thumbCurled :: "Point3 list \<Rightarrow> bool" where
  "thumbCurled lm \<longleftrightarrow> dist_p (lm ! 4) (lm ! 0) < dist_p (lm ! 2) (lm ! 0) * (14 / 10)"

definition isFist :: "Point3 list \<Rightarrow> bool" where
  "isFist lm \<longleftrightarrow> curledCount lm = 4 \<and> thumbCurled lm"

definition victoryCondition :: "Point3 list \<Rightarrow> bool" where
  "victoryCondition lm \<longleftrightarrow>
     \<not> indexCurled lm \<and> \<not> middleCurled lm \<and> ringCurled lm \<and> pinkyCurled lm \<and> \<not> thumbCurled lm"

definition thumbIsUp :: "Point3 list \<Rightarrow> bool" where
  "thumbIsUp lm \<longleftrightarrow>
     py (lm ! 4) < py (lm ! 5) \<and> dist_p (lm ! 4) (lm ! 0) > dist_p (lm ! 2) (lm ! 0) * (15 / 10)"

definition isThumbsUp :: "Point3 list \<Rightarrow> bool" where
  "isThumbsUp lm \<longleftrightarrow> thumbIsUp lm \<and> curledCount lm = 4"

definition extendFactor :: real where "extendFactor = 105 / 100"

definition extendedCount :: "Point3 list \<Rightarrow> nat" where
  "extendedCount lm =
     length (filter (\<lambda>b. b)
       [dist_p (lm ! 8) (lm ! 0) > dist_p (lm ! 5) (lm ! 0) * extendFactor,
        dist_p (lm ! 12) (lm ! 0) > dist_p (lm ! 9) (lm ! 0) * extendFactor,
        dist_p (lm ! 16) (lm ! 0) > dist_p (lm ! 13) (lm ! 0) * extendFactor,
        dist_p (lm ! 20) (lm ! 0) > dist_p (lm ! 17) (lm ! 0) * extendFactor])"

definition isOpen :: "Point3 list \<Rightarrow> bool" where
  "isOpen lm \<longleftrightarrow> extendedCount lm \<ge> 3"

text \<open>The priority chain; its last two branches both give \<open>OPEN_PALM\<close>.\<close>

definition classify :: "real \<Rightarrow> Point3 list \<Rightarrow> gesture" where
  "classify thr lm =
     (if isPinching thr lm then PINCH
      else if isThumbsUp lm then THUMBS_UP
      else if victoryCondition lm then VICTORY
      else if isFist lm then CLOSED
      else if isOpen lm then OPEN_PALM
      else OPEN_PALM)"

definition rawPinchCenter :: "Point3 list \<Rightarrow> Point3" where
  "rawPinchCenter lm =
     Point3 ((px (lm ! 4) + px (lm ! 8)) / 2)
            ((py (lm ! 4) + py (lm ! 8)) / 2)
            ((pz (lm ! 4) + pz (lm ! 8)) / 2)"

definition smoothed :: "Point3 list \<Rightarrow> Point3" where
  "smoothed buf =
     Point3 (foldl (\<lambda>sum p. sum + px p) 0 buf / real (length buf))
            (foldl (\<lambda>sum p. sum + py p) 0 buf / real (length buf))
            (foldl (\<lambda>sum p. sum + pz p) 0 buf / real (length buf))"

text \<open>
  \<open>analyzeHand\<close> reads the landmarks 0, 2, 4, 5, 8, 9, 12, 13, 16, 17 and 20. On an array
  shorter than 21 one of them is \<open>undefined\<close> and reading its \<open>x\<close> throws a TypeError in
  one of the distance computations, all of which come before the push on the position
  buffer: the recognizer is then unchanged. The debug logging has no effect on the state.
\<close>

definition analyzeHand ::
  "Point3 list \<Rightarrow> GestureRecognizer \<Rightarrow> (error + HandAnalysis) \<times> GestureRecognizer" where
  "analyzeHand landmarks r =
     (if length landmarks < 21 then (Inl TypeError, r)
      else
        let buf = push_shift positionBufferSize (positionBuffer r) (rawPinchCenter landmarks)
        in (Inr \<lparr> gesture_of = classify (pinchThreshold r) landmarks,
                   isPinching_of = isPinching (pinchThreshold r) landmarks,
                   isFist_of = isFist landmarks,
                   center = landmarks ! 9,
                   pinchCenter = smoothed buf \<rparr>,
            r\<lparr>positionBuffer := buf\<rparr>))"

text \<open>\<open>landmarks.map(hand => this.analyzeHand(hand))\<close>: the hands in order, on one recognizer.\<close>

fun analyzeHands ::
  "Point3 list list \<Rightarrow> GestureRecognizer \<Rightarrow> (error + HandAnalysis list) \<times> GestureRecognizer" where
  "analyzeHands [] r = (Inr [], r)"
| "analyzeHands (hand # rest) r =
     (case analyzeHand hand r of
        (Inl e, r1) \<Rightarrow> (Inl e, r1)
      | (Inr a, r1) \<Rightarrow>
          (case analyzeHands rest r1 of
             (Inl e, r2) \<Rightarrow> (Inl e, r2)
           | (Inr as, r2) \<Rightarrow> (Inr (a # as), r2)))"

subsection \<open>update\<close>

text \<open>
  The result object of \<open>update\<close>: \<open>{gesture, hand}\<close> on the single-hand paths (\<open>hand\<close> is
  \<open>null\<close> without hands) and \<open>{gesture, hands}\<close> on the two-hand paths, where the field
  \<open>hand\<close> is absent; \<open>out_hands\<close> is empty where the field \<open>hands\<close> is absent.
\<close>

record UpdateResult =
  out_gesture :: gesture
  out_hand :: "HandAnalysis option"
  out_hands :: "HandAnalysis list"

text \<open>
  Swipe detection on the palm-centre history after the push: \<open>Some\<close> of the swipe label
  when one is detected, \<open>None\<close> for \<open>swipe = null\<close>.
\<close>

definition swipe :: "Point3 list \<Rightarrow> gesture \<Rightarrow> gesture option" where
  "swipe hist primaryGesture =
     (if length hist = historySize then
        let start = hist ! 0;
            end = hist ! (length hist - 1);
            dx = px end - px start
        in if \<bar>dx\<bar> > swipeThreshold \<and> \<bar>dx\<bar> > \<bar>py end - py start\<bar> * 2 then
             (if primaryGesture = OPEN_PALM
              then Some (if dx > 0 then SWIPE_RIGHT else SWIPE_LEFT)
              else None)
           else None
      else None)"

text \<open>
  \<open>gestureCounts\<close> is an object used as a table from label to count. Its keys are listed
  by \<open>Object.keys\<close> in the order of their first insertion, so the table is an association
  list: \<open>bump\<close> is \<open>gestureCounts[g] = (gestureCounts[g] || 0) + 1\<close>.
\<close>

fun bump :: "(gesture \<times> nat) list \<Rightarrow> gesture \<Rightarrow> (gesture \<times> nat) list" where
  "bump [] g = [(g, 1)]"
| "bump ((k, c) # kcs) g = (if k = g then (k, c + 1) # kcs else (k, c) # bump kcs g)"

definition gestureCounts :: "gesture list \<Rightarrow> (gesture \<times> nat) list" where
  "gestureCounts hist = foldl bump [] hist"

text \<open>\<open>>\<close> on two table entries; a comparison with \<open>undefined\<close> is false.\<close>

fun count_gt :: "nat option \<Rightarrow> nat option \<Rightarrow> bool" where
  "count_gt (Some m) (Some n) = (m > n)"
| "count_gt _ _ = False"

definition more_frequent :: "(gesture \<times> nat) list \<Rightarrow> gesture \<Rightarrow> gesture \<Rightarrow> gesture" where
  "more_frequent counts a b = (if count_gt (map_of counts a) (map_of counts b) then a else b)"

text \<open>
  \<open>Array.prototype.reduce\<close> without an initial value: the first element starts the
  accumulator, and an empty array throws a TypeError.
\<close>

fun reduce :: "('a \<Rightarrow> 'a \<Rightarrow> 'a) \<Rightarrow> 'a list \<Rightarrow> error + 'a" where
  "reduce f [] = Inl TypeError"
| "reduce f (k # ks) = Inr (foldl f k ks)"

text \<open>
  The stabilization step of \<open>update\<close> (from the push on \<open>gestureHistory\<close> to the stable
  label it returns). The confidence is the count of the most frequent label over the
  length of the history; a missing count would make it \<open>NaN\<close>, which fails the test.
\<close>

definition stabilize :: "gesture \<Rightarrow> GestureRecognizer \<Rightarrow> (error + gesture) \<times> GestureRecognizer" where
  "stabilize currentGesture r =
     (let hist = push_shift gestureHistorySize (gestureHistory r) currentGesture;
          r1 = r\<lparr>gestureHistory := hist\<rparr>;
          counts = gestureCounts hist
      in case reduce (more_frequent counts) (map fst counts) of
           Inl e \<Rightarrow> (Inl e, r1)
         | Inr stableGesture \<Rightarrow>
             let r2 = (case map_of counts stableGesture of
                         None \<Rightarrow> r1
                       | Some c \<Rightarrow>
                           if real c / real (length hist) \<ge> gestureConfidenceThreshold
                           then r1\<lparr>lastStableGesture := stableGesture\<rparr>
                           else r1)
             in (Inr (lastStableGesture r2), r2))"

text \<open>
  The single-hand part of \<open>update\<close>, from \<open>primaryHand\<close> on: the swipe, then the
  stabilization.
\<close>

definition single_hand ::
  "HandAnalysis \<Rightarrow> GestureRecognizer \<Rightarrow> (error + UpdateResult) \<times> GestureRecognizer" where
  "single_hand primaryHand r =
     (let hist = push_shift historySize (swipe_history r) (center primaryHand);
          r1 = r\<lparr>swipe_history := hist\<rparr>
      in case swipe hist (gesture_of primaryHand) of
           Some sw \<Rightarrow>
             (Inr \<lparr>out_gesture = sw, out_hand = Some primaryHand, out_hands = []\<rparr>, r1)
         | None \<Rightarrow>
             (case stabilize (gesture_of primaryHand) r1 of
                (Inl e, r2) \<Rightarrow> (Inl e, r2)
              | (Inr g, r2) \<Rightarrow>
                  (Inr \<lparr>out_gesture = g, out_hand = Some primaryHand, out_hands = []\<rparr>, r2)))"

text \<open>
  \<open>update\<close> on the array of detected hands (the caller passes \<open>results.landmarks\<close>, an
  array). \<open>hands[0]\<close> exists since \<open>landmarks\<close> is not empty.
\<close>

definition update ::
  "Point3 list list \<Rightarrow> GestureRecognizer \<Rightarrow> (error + UpdateResult) \<times> GestureRecognizer" where
  "update landmarks r =
     (if length landmarks = 0
      then (Inr \<lparr>out_gesture = NONE, out_hand = None, out_hands = []\<rparr>, r)
      else
        case analyzeHands landmarks r of
          (Inl e, r1) \<Rightarrow> (Inl e, r1)
        | (Inr hands, r1) \<Rightarrow>
            let g1 = gesture_of (hands ! 0);
                g2 = gesture_of (hands ! 1)
            in if length hands = 2 \<and> g1 = CLOSED \<and> g2 = CLOSED
               then (Inr \<lparr>out_gesture = ZOOM_IN, out_hand = None, out_hands = hands\<rparr>, r1)
               else if length hands = 2 \<and>
                       ((g1 = CLOSED \<and> g2 = OPEN_PALM) \<or> (g1 = OPEN_PALM \<and> g2 = CLOSED))
               then (Inr \<lparr>out_gesture = ZOOM_OUT, out_hand = None, out_hands = hands\<rparr>, r1)
               else single_hand (hands ! 0) r1)"

text \<open>
  Feeding a sequence of raw labels to the stabilization step, one frame each; the result
  lists the stable label emitted at every frame.
\<close>

fun feed :: "gesture list \<Rightarrow> GestureRecognizer \<Rightarrow> (error + gesture list) \<times> GestureRecognizer" where
  "feed [] r = (Inr [], r)"
| "feed (g # gs) r =
     (case stabilize g r of
        (Inl e, r1) \<Rightarrow> (Inl e, r1)
      | (Inr out, r1) \<Rightarrow>
          (case feed gs r1 of
             (Inl e, r2) \<Rightarrow> (Inl e, r2)
           | (Inr outs, r2) \<Rightarrow> (Inr (out # outs), r2)))"

section \<open>VoxelWorld\<close>

text \<open>
  A voxel's key is the string \<open>x,y,z\<close> made of the three coordinates of a position. The
  model keeps the three numbers: two positions have the same string exactly when they
  have the same coordinates. A mesh is its position and the colour of its material;
  \<open>getHex\<close> reads the colour it was made with. The scene graph, the geometry and the
  other material parameters are rendering and are not modelled.

  \<open>voxels\<close> is a \<open>Map\<close>: it iterates in insertion order, \<open>set\<close> on a key it has keeps
  the key's place, \<open>set\<close> on a new key appends. That is \<open>AList.update\<close> on an association
  list, with \<open>AList.delete\<close> for \<open>delete\<close> and \<open>map_of\<close> for \<open>get\<close> and \<open>has\<close>.
\<close>

type_synonym key = "real \<times> real \<times> real"

definition key_of :: "Point3 \<Rightarrow> key" where
  "key_of pos = (px pos, py pos, pz pos)"

record Mesh =
  mesh_position :: Point3
  mesh_color :: nat

datatype action_type = ADD | REMOVE

record Action =
  action_type :: action_type
  action_key :: key
  action_position :: Point3
  action_color :: nat

record VoxelWorld =
  voxels :: "(key \<times> Mesh) list"
  cursor_position :: Point3
  cursorVisible :: bool
  camera_position_z :: real
  scene_rotation :: Point3
  history :: "Action list"

definition voxelSize :: real where "voxelSize = 1"

definition has :: "(key \<times> Mesh) list \<Rightarrow> key \<Rightarrow> bool" where
  "has m k \<longleftrightarrow> map_of m k \<noteq> None"

text \<open>
  One hit of the ray on a voxel mesh, as \<open>intersectObjects\<close> reports it: the position of
  the mesh that was hit and the normal of the face that was hit. The ray caster is the
  rendering library's: the two lists of intersections it returns for the pointer, the
  hits on the voxel meshes and the points on the floor plane, are arguments of
  \<open>updateCursorFromHand\<close>.
\<close>

record Hit =
  hit_object_position :: Point3
  hit_face_normal :: Point3

text \<open>The loop over \<open>voxels\<close> that raises \<open>maxY\<close> in the column of the cell \<open>(x, z)\<close>.\<close>

definition column_step :: "real \<Rightarrow> real \<Rightarrow> real \<Rightarrow> key \<times> Mesh \<Rightarrow> real" where
  "column_step x z maxY entry =
     (let pos = mesh_position (snd entry)
      in if \<bar>px pos - x\<bar> < 1 / 100 \<and> \<bar>pz pos - z\<bar> < 1 / 100
         then (if py pos \<ge> maxY then py pos + voxelSize else maxY)
         else maxY)"

definition column_maxY :: "real \<Rightarrow> real \<Rightarrow> (key \<times> Mesh) list \<Rightarrow> real" where
  "column_maxY x z vs = foldl (column_step x z) (voxelSize / 2) vs"

definition updateCursorFromHand ::
  "Hit list \<Rightarrow> Point3 list \<Rightarrow> VoxelWorld \<Rightarrow> Point3 option \<times> VoxelWorld" where
  "updateCursorFromHand voxelIntersects intersects w =
     (case voxelIntersects of
        hit # _ \<Rightarrow>
          let hitPos = hit_object_position hit;
              normal = hit_face_normal hit;
              x = Math_round ((px hitPos + px normal * voxelSize) / voxelSize) * voxelSize;
              y = Math_round ((py hitPos + py normal * voxelSize) / voxelSize) * voxelSize;
              z = Math_round ((pz hitPos + pz normal * voxelSize) / voxelSize) * voxelSize
          in (Some (Point3 x y z), w\<lparr>cursor_position := Point3 x y z, cursorVisible := True\<rparr>)
      | [] \<Rightarrow>
          (case intersects of
             intersect # _ \<Rightarrow>
               let x = Math_floor (px intersect / voxelSize) * voxelSize + voxelSize / 2;
                   z = Math_floor (pz intersect / voxelSize) * voxelSize + voxelSize / 2;
                   maxY = column_maxY x z (voxels w)
               in (Some (Point3 x maxY z),
                   w\<lparr>cursor_position := Point3 x maxY z, cursorVisible := True\<rparr>)
           | [] \<Rightarrow> (None, w\<lparr>cursorVisible := False\<rparr>)))"

definition createVoxelAtCursor :: "VoxelWorld \<Rightarrow> bool \<times> VoxelWorld" where
  "createVoxelAtCursor w =
     (if \<not> cursorVisible w then (False, w)
      else
        let pos = cursor_position w;
            k = key_of pos
        in if has (voxels w) k then (False, w)
           else
             let cube = \<lparr>mesh_position = pos, mesh_color = 0x00ffff\<rparr>
             in (True,
                 w\<lparr>voxels := AList.update k cube (voxels w),
                   history := history w @
                     [\<lparr>action_type = ADD, action_key = k, action_position = pos,
                       action_color = 0x00ffff\<rparr>]\<rparr>))"

definition removeVoxelAtCursor :: "VoxelWorld \<Rightarrow> VoxelWorld" where
  "removeVoxelAtCursor w =
     (if \<not> cursorVisible w then w
      else
        let pos = cursor_position w;
            k = key_of pos
        in case map_of (voxels w) k of
             None \<Rightarrow> w
           | Some trash \<Rightarrow>
               w\<lparr>voxels := AList.delete k (voxels w),
                 history := history w @
                   [\<lparr>action_type = REMOVE, action_key = k, action_position = pos,
                     action_color = mesh_color trash\<rparr>]\<rparr>)"

definition undo :: "VoxelWorld \<Rightarrow> VoxelWorld" where
  "undo w =
     (if length (history w) = 0 then w
      else
        let action = last (history w);
            w1 = w\<lparr>history := butlast (history w)\<rparr>
        in case action_type action of
             ADD \<Rightarrow>
               if has (voxels w1) (action_key action)
               then w1\<lparr>voxels := AList.delete (action_key action) (voxels w1)\<rparr>
               else w1
           | REMOVE \<Rightarrow>
               let cube = \<lparr>mesh_position = action_position action,
                           mesh_color = action_color action\<rparr>
               in w1\<lparr>voxels := AList.update (action_key action) cube (voxels w1)\<rparr>)"

definition reset :: "VoxelWorld \<Rightarrow> VoxelWorld" where
  "reset w = w\<lparr>voxels := [], history := [], scene_rotation := Point3 0 0 0\<rparr>"

text \<open>
  \<open>JSON.parse\<close> is the platform's decoder. \<open>loadFromJSON\<close> takes what it makes of
  \<open>jsonString\<close>: \<open>None\<close> when it throws a SyntaxError (the string is not valid JSON),
  otherwise the decoded value. Of the decoded values the model tells apart an array and
  anything else (on which \<open>data.forEach\<close> throws a TypeError), and of an array's elements
  \<open>null\<close> (reading \<open>v.color\<close> throws a TypeError) and a record with numbers \<open>x\<close>, \<open>y\<close>,
  \<open>z\<close> and an optional numeric \<open>color\<close>. The \<open>catch\<close> block logs the error and returns
  normally; the first component of the result is the error it logged, if any.
\<close>

datatype json_entry = JNull | JVoxel real real real "nat option"

datatype json_data = JArray "json_entry list" | JOther

fun load_entries :: "json_entry list \<Rightarrow> VoxelWorld \<Rightarrow> error option \<times> VoxelWorld" where
  "load_entries [] w = (None, w)"
| "load_entries (JNull # vs) w = (Some TypeError, w)"
| "load_entries (JVoxel vx vy vz c # vs) w =
     load_entries vs
       (w\<lparr>voxels :=
            AList.update (vx, vy, vz)
              \<lparr>mesh_position = Point3 vx vy vz,
                mesh_color = (case c of None \<Rightarrow> 0x00ffff
                              | Some n \<Rightarrow> if n = 0 then 0x00ffff else n)\<rparr>
              (voxels w)\<rparr>)"

definition loadFromJSON :: "json_data option \<Rightarrow> VoxelWorld \<Rightarrow> error option \<times> VoxelWorld" where
  "loadFromJSON parsed w =
     (case parsed of
        None \<Rightarrow> (Some SyntaxError, w)
      | Some data \<Rightarrow>
          (case data of
             JOther \<Rightarrow> (Some TypeError, reset w)
           | JArray vs \<Rightarrow> load_entries vs (reset w)))"

section \<open>Interaction handling\<close>

datatype InteractionState =
  IDLE | DRAW_WAIT | BLOCK_PLACED | UNDO_WAIT | UNDO_COMPLETE | ROTATING | ZOOMING

text \<open>
  The module's mutable variables that \<open>handleInteraction\<close> reads or writes, with the
  world. The status text it writes to the page is not modelled.
\<close>

record App =
  world :: VoxelWorld
  lastGesture :: gesture
  lastPoint :: "(real \<times> real) option"
  lastClosedTime :: int
  pinchStartTime :: int
  undoStartTime :: int
  interactionState :: InteractionState
  blockPlacedThisPinch :: bool

text \<open>
  Step 1: the point that drives the cursor, as its \<open>(x, y)\<close>. \<open>landmarks[8]\<close> of an array
  with fewer than nine entries is \<open>undefined\<close>, and reading its \<open>x\<close> throws.
\<close>

definition pointer_point ::
  "HandAnalysis option \<Rightarrow> Point3 list option \<Rightarrow> error + (real \<times> real)" where
  "pointer_point handState landmarks =
     (case handState of
        Some h \<Rightarrow> Inr (px (pinchCenter h), py (pinchCenter h))
      | None \<Rightarrow>
          (case landmarks of
             Some lm \<Rightarrow> if length lm \<le> 8 then Inl TypeError else Inr (px (lm ! 8), py (lm ! 8))
           | None \<Rightarrow> Inr (1 / 2, 1 / 2)))"

text \<open>
  Step 3, the transitions on the gesture; \<open>None\<close> is the early \<open>return\<close> of the debounce.
\<close>

definition transition :: "gesture \<Rightarrow> real \<Rightarrow> real \<Rightarrow> int \<Rightarrow> App \<Rightarrow> App option" where
  "transition gesture ndcX ndcY now s =
     (if gesture = CLOSED then
        let s1 = (if interactionState s \<noteq> ROTATING
                  then s\<lparr>interactionState := ROTATING, lastPoint := Some (ndcX, ndcY)\<rparr>
                  else s)
        in Some (s1\<lparr>world := (world s1)\<lparr>cursorVisible := False\<rparr>\<rparr>)
      else if gesture = PINCH then
        (if (interactionState s = ROTATING \<or> interactionState s = ZOOMING)
            \<and> now - lastClosedTime s < 300
         then None
         else
           let s1 = (if interactionState s = ROTATING \<or> interactionState s = ZOOMING
                     then s\<lparr>interactionState := IDLE\<rparr>
                     else s)
           in Some (if interactionState s1 \<noteq> DRAW_WAIT \<and> interactionState s1 \<noteq> BLOCK_PLACED
                    then s1\<lparr>interactionState := DRAW_WAIT, pinchStartTime := now,
                            blockPlacedThisPinch := False\<rparr>
                    else s1))
      else if gesture = VICTORY then
        Some (if interactionState s \<noteq> UNDO_WAIT \<and> interactionState s \<noteq> UNDO_COMPLETE
              then s\<lparr>interactionState := UNDO_WAIT, undoStartTime := now\<rparr>
              else s)
      else Some (s\<lparr>interactionState := IDLE, blockPlacedThisPinch := False\<rparr>))"

text \<open>Step 4, the action of the state the transitions left.\<close>

definition BUILD_DELAY :: int where "BUILD_DELAY = 2000"
definition UNDO_DELAY :: int where "UNDO_DELAY = 2000"
definition sensitivity :: real where "sensitivity = 35 / 10"

definition state_action :: "real \<Rightarrow> real \<Rightarrow> int \<Rightarrow> App \<Rightarrow> App" where
  "state_action ndcX ndcY now s =
     (case interactionState s of
        ROTATING \<Rightarrow>
          (let s1 = (case lastPoint s of
                       None \<Rightarrow> s
                     | Some (lx, ly) \<Rightarrow>
                         let deltaX = ndcX - lx;
                             deltaY = ndcY - ly;
                             rot = scene_rotation (world s)
                         in s\<lparr>world := (world s)\<lparr>scene_rotation :=
                                Point3 (px rot + deltaY * sensitivity)
                                       (py rot + deltaX * sensitivity)
                                       (pz rot)\<rparr>\<rparr>)
           in s1\<lparr>lastClosedTime := now\<rparr>)
      | DRAW_WAIT \<Rightarrow>
          (let elapsed = now - pinchStartTime s
           in if elapsed > BUILD_DELAY \<and> \<not> blockPlacedThisPinch s then
                (case createVoxelAtCursor (world s) of
                   (True, w1) \<Rightarrow>
                     s\<lparr>world := w1, blockPlacedThisPinch := True,
                       interactionState := BLOCK_PLACED\<rparr>
                 | (False, w1) \<Rightarrow> s\<lparr>world := w1\<rparr>)
              else s)
      | BLOCK_PLACED \<Rightarrow> s
      | UNDO_WAIT \<Rightarrow>
          (let elapsed = now - undoStartTime s
           in if elapsed > UNDO_DELAY
              then s\<lparr>world := undo (world s), interactionState := UNDO_COMPLETE\<rparr>
              else s)
      | UNDO_COMPLETE \<Rightarrow> s
      | IDLE \<Rightarrow> s
      | ZOOMING \<Rightarrow> s)"

text \<open>
  \<open>handleInteraction\<close> for one frame at the time \<open>now\<close>, with the two lists of
  intersections the ray caster returns for the pointer. The TypeError of step 1 comes
  before any assignment.
\<close>

definition handleInteraction ::
  "gesture \<Rightarrow> HandAnalysis option \<Rightarrow> Point3 list option \<Rightarrow> int \<Rightarrow> Hit list \<Rightarrow> Point3 list
     \<Rightarrow> App \<Rightarrow> error + App" where
  "handleInteraction gesture handState landmarks now voxelIntersects intersects s =
     (case pointer_point handState landmarks of
        Inl e \<Rightarrow> Inl e
      | Inr (pointX, pointY) \<Rightarrow>
          let ndcX = (1 - pointX) * 2 - 1;
              ndcY = 1 - pointY * 2;
              s1 = s\<lparr>world := snd (updateCursorFromHand voxelIntersects intersects (world s))\<rparr>
          in if gesture = ZOOM_IN then
               Inr (s1\<lparr>world := (world s1)\<lparr>camera_position_z :=
                                      max 2 (camera_position_z (world s1) - 2 / 10)\<rparr>,
                       interactionState := ZOOMING\<rparr>)
             else if gesture = ZOOM_OUT then
               Inr (s1\<lparr>world := (world s1)\<lparr>camera_position_z :=
                                      min 20 (camera_position_z (world s1) + 2 / 10)\<rparr>,
                       interactionState := ZOOMING\<rparr>)
             else
               (case transition gesture ndcX ndcY now s1 of
                  None \<Rightarrow> Inr s1
                | Some s2 \<Rightarrow>
                    Inr ((state_action ndcX ndcY now s2)
                           \<lparr>lastPoint := Some (ndcX, ndcY), lastGesture := gesture\<rparr>)))"

section \<open>Inputs for the properties\<close>

text \<open>Every landmark of a hand multiplied by the factor \<open>s\<close>.\<close>

definition scale_point :: "real \<Rightarrow> Point3 \<Rightarrow> Point3" where
  "scale_point s p = Point3 (s * px p) (s * py p) (s * pz p)"

definition scale_landmarks :: "real \<Rightarrow> Point3 list \<Rightarrow> Point3 list" where
  "scale_landmarks s lm = map (scale_point s) lm"

text \<open>
  The pinch tests of \<open>analyzeHand\<close> with the arithmetic as a parameter: \<open>d p q\<close> is the
  value that the evaluation of \<open>dist(p, q)\<close> returns and \<open>m v\<close> the value that the
  evaluation of \<open>v * 1.1\<close> returns. The hand is labelled \<open>PINCH\<close> exactly when these tests
  hold for the values the evaluation returns; with exact arithmetic they are \<open>isPinching\<close>.
\<close>

definition pinch_tests ::
  "(Point3 \<Rightarrow> Point3 \<Rightarrow> real) \<Rightarrow> (real \<Rightarrow> real) \<Rightarrow> real \<Rightarrow> Point3 list \<Rightarrow> bool" where
  "pinch_tests d m thr lm \<longleftrightarrow>
     d (lm ! 4) (lm ! 8) < thr
     \<and> d (lm ! 12) (lm ! 0) > m (d (lm ! 9) (lm ! 0))
     \<and> d (lm ! 16) (lm ! 0) > m (d (lm ! 13) (lm ! 0))
     \<and> d (lm ! 20) (lm ! 0) > m (d (lm ! 17) (lm ! 0))"

text \<open>
  An evaluation is accurate to the relative error \<open>eps\<close> on a hand when each of the seven
  distances of the pinch tests and each of the three products by 1.1 that it returns is
  within \<open>eps\<close> times the exact value of the exact value.
\<close>

definition close_to :: "real \<Rightarrow> real \<Rightarrow> real \<Rightarrow> bool" where
  "close_to eps exact v \<longleftrightarrow> \<bar>v - exact\<bar> \<le> eps * exact"

definition accurate ::
  "real \<Rightarrow> (Point3 \<Rightarrow> Point3 \<Rightarrow> real) \<Rightarrow> (real \<Rightarrow> real) \<Rightarrow> Point3 list \<Rightarrow> bool" where
  "accurate eps d m lm \<longleftrightarrow>
     close_to eps (dist_p (lm ! 4) (lm ! 8)) (d (lm ! 4) (lm ! 8))
     \<and> close_to eps (dist_p (lm ! 12) (lm ! 0)) (d (lm ! 12) (lm ! 0))
     \<and> close_to eps (dist_p (lm ! 9) (lm ! 0)) (d (lm ! 9) (lm ! 0))
     \<and> close_to eps (dist_p (lm ! 16) (lm ! 0)) (d (lm ! 16) (lm ! 0))
     \<and> close_to eps (dist_p (lm ! 13) (lm ! 0)) (d (lm ! 13) (lm ! 0))
     \<and> close_to eps (dist_p (lm ! 20) (lm ! 0)) (d (lm ! 20) (lm ! 0))
     \<and> close_to eps (dist_p (lm ! 17) (lm ! 0)) (d (lm ! 17) (lm ! 0))
     \<and> close_to eps (d (lm ! 9) (lm ! 0) * (11 / 10)) (m (d (lm ! 9) (lm ! 0)))
     \<and> close_to eps (d (lm ! 13) (lm ! 0) * (11 / 10)) (m (d (lm ! 13) (lm ! 0)))
     \<and> close_to eps (d (lm ! 17) (lm ! 0) * (11 / 10)) (m (d (lm ! 17) (lm ! 0)))"

text \<open>
  Example hands of 21 landmarks. They lie on the vertical line \<open>x = 1/2\<close>, \<open>z = 0\<close> of
  the image, the wrist lowest at \<open>y = 9/10\<close> and the knuckles (landmarks 2, 5, 9, 13, 17)
  at \<open>y = 7/10\<close>, so that the distance of two landmarks is the difference of their
  heights.
\<close>

definition hand_on_line :: "real list \<Rightarrow> Point3 list" where
  "hand_on_line ys = map (\<lambda>v. Point3 (1 / 2) v 0) ys"

text \<open>A fist: every fingertip at 3/4 of the knuckle's distance from the wrist.\<close>

definition fist_hand :: "Point3 list" where
  "fist_hand = hand_on_line
     [9/10, 8/10, 7/10, 72/100, 75/100,
      7/10, 72/100, 74/100, 75/100,
      7/10, 72/100, 74/100, 75/100,
      7/10, 72/100, 74/100, 75/100,
      7/10, 72/100, 74/100, 75/100]"

text \<open>
  A loosely closed hand: every fingertip at 1.2 times the knuckle's distance from the
  wrist, thumb tip on the index tip.
\<close>

definition pinched_fist :: "Point3 list" where
  "pinched_fist = hand_on_line
     [9/10, 8/10, 7/10, 68/100, 66/100,
      7/10, 69/100, 68/100, 66/100,
      7/10, 69/100, 68/100, 66/100,
      7/10, 69/100, 68/100, 66/100,
      7/10, 69/100, 68/100, 66/100]"

text \<open>
  A pinch: middle, ring and little finger stretched, thumb tip and index tip 0.04 apart.
\<close>

definition pinch_hand :: "Point3 list" where
  "pinch_hand = hand_on_line
     [9/10, 8/10, 7/10, 68/100, 66/100,
      7/10, 68/100, 65/100, 62/100,
      7/10, 66/100, 63/100, 6/10,
      7/10, 66/100, 63/100, 6/10,
      7/10, 66/100, 63/100, 6/10]"

text \<open>An open palm: the four fingers stretched, the thumb away from the index tip.\<close>

definition open_hand :: "Point3 list" where
  "open_hand = hand_on_line
     [9/10, 8/10, 7/10, 65/100, 6/10,
      7/10, 6/10, 55/100, 5/10,
      7/10, 6/10, 55/100, 5/10,
      7/10, 6/10, 55/100, 5/10,
      7/10, 6/10, 55/100, 5/10]"

text \<open>
  The world as its constructor leaves it (camera at distance 8, cursor hidden at the
  origin), the same world with the pointer on the floor at \<open>(0.01, 0, 0.5)\<close>, a point
  in the margin of its cell that the box of a voxel of that column does not cover, and
  that world after one placement.
\<close>

definition new_world :: VoxelWorld where
  "new_world =
     \<lparr> voxels = [], cursor_position = Point3 0 0 0, cursorVisible = False,
       camera_position_z = 8, scene_rotation = Point3 0 0 0, history = [] \<rparr>"

definition aimed_world :: VoxelWorld where
  "aimed_world = snd (updateCursorFromHand [] [Point3 (1 / 100) 0 (1 / 2)] new_world)"

definition one_voxel_world :: VoxelWorld where
  "one_voxel_world = snd (createVoxelAtCursor aimed_world)"

text \<open>The module's variables as they are initialised, over a given world.\<close>

definition new_app :: "VoxelWorld \<Rightarrow> App" where
  "new_app w =
     \<lparr> world = w, lastGesture = NONE, lastPoint = None, lastClosedTime = 0,
       pinchStartTime = 0, undoStartTime = 0, interactionState = IDLE,
       blockPlacedThisPinch = False \<rparr>"







section \<open>Lemmas on the model\<close>

subsection \<open>Distances and the classifier\<close>

lemma dist_p_nonneg: "0 \<le> dist_p p q"
  by (simp add: dist_p_def)

lemma dist_p_line [simp]: "dist_p (Point3 a v c) (Point3 a w c) = \<bar>v - w\<bar>"
  by (simp add: dist_p_def)

lemma dist_p_scale:
  assumes "0 < s"
  shows "dist_p (scale_point s p) (scale_point s q) = s * dist_p p q"
proof -
  have "(s * px p - s * px q)\<^sup>2 + (s * py p - s * py q)\<^sup>2 + (s * pz p - s * pz q)\<^sup>2
        = s\<^sup>2 * ((px p - px q)\<^sup>2 + (py p - py q)\<^sup>2 + (pz p - pz q)\<^sup>2)"
    by (simp add: algebra_simps power2_eq_square)
  then show ?thesis
    using assms by (simp add: dist_p_def scale_point_def real_sqrt_mult)
qed

lemmas hand_defs = hand_on_line_def classify_def isPinching_def thumbIndexClose_def pinchDist_def
  otherFingersExtended_def middleExtended_def ringExtended_def pinkyExtended_def
  isThumbsUp_def thumbIsUp_def curledCount_def indexCurled_def middleCurled_def ringCurled_def
  pinkyCurled_def curlFactor_def thumbCurled_def victoryCondition_def isFist_def isOpen_def
  extendedCount_def extendFactor_def

lemma analyzeHand_ok:
  "21 \<le> length lm \<Longrightarrow>
   analyzeHand lm r =
     (Inr \<lparr> gesture_of = classify (pinchThreshold r) lm,
             isPinching_of = isPinching (pinchThreshold r) lm,
             isFist_of = isFist lm,
             center = lm ! 9,
             pinchCenter =
               smoothed (push_shift positionBufferSize (positionBuffer r) (rawPinchCenter lm)) \<rparr>,
      r\<lparr>positionBuffer := push_shift positionBufferSize (positionBuffer r) (rawPinchCenter lm)\<rparr>)"
  by (simp add: analyzeHand_def Let_def)

lemma analyzeHand_Inr:
  "analyzeHand lm r = (Inr a, r1) \<Longrightarrow>
   21 \<le> length lm \<and> gesture_of a = classify (pinchThreshold r) lm
   \<and> r1 = r\<lparr>positionBuffer := push_shift positionBufferSize (positionBuffer r) (rawPinchCenter lm)\<rparr>"
  by (auto simp: analyzeHand_def Let_def split: if_splits)

lemma curled_not_thumbIsUp: "thumbCurled lm \<Longrightarrow> \<not> thumbIsUp lm"
  using dist_p_nonneg [of "lm ! 2" "lm ! 0"]
  by (auto simp: thumbCurled_def thumbIsUp_def)

lemma classify_fist:
  assumes "indexCurled lm" "middleCurled lm" "ringCurled lm" "pinkyCurled lm" "thumbCurled lm"
  shows "classify thr lm = (if isPinching thr lm then PINCH else CLOSED)"
  using assms curled_not_thumbIsUp [of lm]
  by (simp add: classify_def isThumbsUp_def victoryCondition_def isFist_def curledCount_def)

lemma classify_PINCH: "classify thr lm = PINCH \<longleftrightarrow> isPinching thr lm"
  by (simp add: classify_def)

lemma scale_nth: "i < length lm \<Longrightarrow> scale_landmarks s lm ! i = scale_point s (lm ! i)"
  by (simp add: scale_landmarks_def)

lemma scaled_cmp:
  assumes "0 < s" "21 \<le> length lm" "i < 21" "j < 21" "k < 21"
  shows "dist_p (scale_landmarks s lm ! i) (scale_landmarks s lm ! k)
           > dist_p (scale_landmarks s lm ! j) (scale_landmarks s lm ! k) * c
         \<longleftrightarrow> dist_p (lm ! i) (lm ! k) > dist_p (lm ! j) (lm ! k) * c"
proof -
  have "s * (dist_p (lm ! j) (lm ! k) * c) < s * dist_p (lm ! i) (lm ! k)
        \<longleftrightarrow> dist_p (lm ! j) (lm ! k) * c < dist_p (lm ! i) (lm ! k)"
    using assms(1) by (rule mult_less_cancel_left_pos)
  then show ?thesis
    using assms by (simp add: scale_nth dist_p_scale mult.assoc)
qed

lemma otherFingersExtended_scale:
  assumes "0 < s" "21 \<le> length lm"
  shows "otherFingersExtended (scale_landmarks s lm) \<longleftrightarrow> otherFingersExtended lm"
proof -
  have "middleExtended (scale_landmarks s lm) \<longleftrightarrow> middleExtended lm"
    unfolding middleExtended_def using assms by (intro scaled_cmp) simp_all
  moreover have "ringExtended (scale_landmarks s lm) \<longleftrightarrow> ringExtended lm"
    unfolding ringExtended_def using assms by (intro scaled_cmp) simp_all
  moreover have "pinkyExtended (scale_landmarks s lm) \<longleftrightarrow> pinkyExtended lm"
    unfolding pinkyExtended_def using assms by (intro scaled_cmp) simp_all
  ultimately show ?thesis
    by (simp add: otherFingersExtended_def)
qed

lemma pinchDist_scale:
  assumes "0 < s" "21 \<le> length lm"
  shows "pinchDist (scale_landmarks s lm) = s * pinchDist lm"
  using assms by (simp add: pinchDist_def scale_nth dist_p_scale)

subsection \<open>Buffers\<close>

lemma push_shift_nonempty: "0 < n \<Longrightarrow> push_shift n xs v \<noteq> []"
  by (cases xs) (auto simp: push_shift_def Let_def)

lemma push_shift_snoc: "0 < n \<Longrightarrow> \<exists>zs. push_shift n xs v = zs @ [v]"
  by (cases xs) (auto simp: push_shift_def Let_def)

lemma push_shift_snoc2: "1 < n \<Longrightarrow> \<exists>zs. push_shift n (ys @ [u]) v = zs @ [u, v]"
  by (cases ys) (auto simp: push_shift_def Let_def)

lemma foldl_add_sum_list: "foldl (\<lambda>sum p. sum + f p) a xs = a + sum_list (map f xs)"
  for a :: real
  by (induction xs arbitrary: a) simp_all

lemma smoothed_mean:
  "smoothed buf =
     Point3 (sum_list (map px buf) / real (length buf))
            (sum_list (map py buf) / real (length buf))
            (sum_list (map pz buf) / real (length buf))"
  by (simp add: smoothed_def foldl_add_sum_list)

subsection \<open>The voxel map and the example worlds\<close>

lemma delete_update_fresh:
  "map_of al k = None \<Longrightarrow> AList.delete k (AList.update k v al) = al"
  by (induction al) (auto split: if_splits)

lemma has_update: "has (AList.update k v al) k"
  by (simp add: has_def update_conv')

lemma update_cursor_frame:
  "voxels (snd (updateCursorFromHand vi pli w)) = voxels w
   \<and> history (snd (updateCursorFromHand vi pli w)) = history w
   \<and> camera_position_z (snd (updateCursorFromHand vi pli w)) = camera_position_z w
   \<and> scene_rotation (snd (updateCursorFromHand vi pli w)) = scene_rotation w"
  by (simp add: updateCursorFromHand_def Let_def split: list.splits)

lemma aimed_world_eq:
  "aimed_world = new_world\<lparr>cursor_position := Point3 (1/2) (1/2) (1/2), cursorVisible := True\<rparr>"
  by (simp add: aimed_world_def new_world_def updateCursorFromHand_def Let_def Math_floor_def
      voxelSize_def column_maxY_def)

lemma one_voxel_world_eq:
  "one_voxel_world = aimed_world
     \<lparr>voxels := [((1/2, 1/2, 1/2),
                  \<lparr>mesh_position = Point3 (1/2) (1/2) (1/2), mesh_color = 0x00ffff\<rparr>)],
      history := [\<lparr>action_type = ADD, action_key = (1/2, 1/2, 1/2),
                   action_position = Point3 (1/2) (1/2) (1/2), action_color = 0x00ffff\<rparr>]\<rparr>"
  by (simp add: one_voxel_world_def aimed_world_eq new_world_def createVoxelAtCursor_def Let_def
      has_def key_of_def)




subsection \<open>The column loop\<close>



section \<open>Persistence\<close>

text \<open>
  C1 (as amended). \<open>loadFromJSON\<close> decodes before it resets. When the string is not valid
  JSON, \<open>JSON.parse\<close> throws before \<open>reset()\<close> is reached; the \<open>catch\<close> block logs the
  SyntaxError and the call returns normally, with the world exactly as it was: the voxel
  map, the undo log and the scene rotation are unchanged.
\<close>

theorem loadFromJSON_invalid_keeps_world:
  "loadFromJSON None w = (Some SyntaxError, w)"
  by (simp add: loadFromJSON_def)

text \<open>
  The statement that an invalid string leaves the world empty fails on the world with
  one placed voxel: after the failed load the voxel and its undo entry are still there.
\<close>

theorem loadFromJSON_invalid_not_reset:
  "fst (loadFromJSON None one_voxel_world) = Some SyntaxError
   \<and> voxels (snd (loadFromJSON None one_voxel_world)) \<noteq> []
   \<and> history (snd (loadFromJSON None one_voxel_world)) \<noteq> []"
  by (simp add: loadFromJSON_def one_voxel_world_eq)

section \<open>Undo and placement\<close>

text \<open>
  C2. Undo inverts the most recent mutation. With a valid cursor on a free cell, placing
  and then undoing gives back the world as it was (the voxel map and the undo log with
  it). With a valid cursor on an occupied cell, whose voxel is \<open>m\<close>, removing and then
  undoing gives a voxel map that holds, at the cursor's key, a voxel at the cursor's
  position with the colour of \<open>m\<close>, and that agrees with the old map at every other key;
  the undo log is as it was.
\<close>

theorem undo_inverts_place_and_remove:
  "(cursorVisible w \<and> \<not> has (voxels w) (key_of (cursor_position w)) \<longrightarrow>
      fst (createVoxelAtCursor w) \<and> undo (snd (createVoxelAtCursor w)) = w)
   \<and> (cursorVisible w \<and> map_of (voxels w) (key_of (cursor_position w)) = Some m \<longrightarrow>
      map_of (voxels (undo (removeVoxelAtCursor w))) =
        (map_of (voxels w))
          (key_of (cursor_position w) \<mapsto>
             \<lparr>mesh_position = cursor_position w, mesh_color = mesh_color m\<rparr>)
      \<and> history (undo (removeVoxelAtCursor w)) = history w)"
  by (auto simp: createVoxelAtCursor_def removeVoxelAtCursor_def undo_def Let_def has_update
      update_conv' delete_conv' delete_update_fresh has_def)

theorem undo_inverts_place_and_remove_witness:
  "cursorVisible aimed_world \<and> \<not> has (voxels aimed_world) (key_of (cursor_position aimed_world))
   \<and> undo (snd (createVoxelAtCursor aimed_world)) = aimed_world
   \<and> cursorVisible one_voxel_world
   \<and> map_of (voxels one_voxel_world) (key_of (cursor_position one_voxel_world)) =
       Some \<lparr>mesh_position = Point3 (1/2) (1/2) (1/2), mesh_color = 0x00ffff\<rparr>
   \<and> map_of (voxels (undo (removeVoxelAtCursor one_voxel_world))) (1/2, 1/2, 1/2) =
       Some \<lparr>mesh_position = Point3 (1/2) (1/2) (1/2), mesh_color = 0x00ffff\<rparr>"
proof -
  have a: "cursorVisible aimed_world \<and> \<not> has (voxels aimed_world) (key_of (cursor_position aimed_world))"
    by (simp add: aimed_world_eq new_world_def has_def)
  have b: "cursorVisible one_voxel_world
      \<and> map_of (voxels one_voxel_world) (key_of (cursor_position one_voxel_world)) =
          Some \<lparr>mesh_position = Point3 (1/2) (1/2) (1/2), mesh_color = 0x00ffff\<rparr>"
    by (simp add: one_voxel_world_eq aimed_world_eq new_world_def key_of_def)
  have k: "key_of (cursor_position one_voxel_world) = (1/2, 1/2, 1/2)"
    "cursor_position one_voxel_world = Point3 (1/2) (1/2) (1/2)"
    by (simp_all add: one_voxel_world_eq aimed_world_eq new_world_def key_of_def)
  show ?thesis
    using undo_inverts_place_and_remove [of aimed_world]
      undo_inverts_place_and_remove
        [of one_voxel_world "\<lparr>mesh_position = Point3 (1/2) (1/2) (1/2), mesh_color = 0x00ffff\<rparr>"]
      a b k
    by simp
qed

text \<open>
  C6. Placement refuses duplicates. In every world state, a second \<open>createVoxelAtCursor\<close>
  right after a first one returns false and changes nothing, so the voxel map and the
  length of the undo log stay as the first call left them. A call with an invalid cursor,
  or with the cursor's key already in the map, returns false and changes nothing.
  Otherwise the call returns true, the map gains the cyan voxel at the cursor's key and
  is unchanged elsewhere, and the undo log gains exactly one \<open>ADD\<close> action for that key.
\<close>

theorem createVoxelAtCursor_idempotent:
  "createVoxelAtCursor (snd (createVoxelAtCursor w)) = (False, snd (createVoxelAtCursor w))
   \<and> (\<not> cursorVisible w \<longrightarrow> createVoxelAtCursor w = (False, w))
   \<and> (cursorVisible w \<and> has (voxels w) (key_of (cursor_position w)) \<longrightarrow>
        createVoxelAtCursor w = (False, w))
   \<and> (cursorVisible w \<and> \<not> has (voxels w) (key_of (cursor_position w)) \<longrightarrow>
        fst (createVoxelAtCursor w)
        \<and> map_of (voxels (snd (createVoxelAtCursor w))) =
            (map_of (voxels w))
              (key_of (cursor_position w) \<mapsto>
                 \<lparr>mesh_position = cursor_position w, mesh_color = 0x00ffff\<rparr>)
        \<and> history (snd (createVoxelAtCursor w)) =
            history w @
              [\<lparr>action_type = ADD, action_key = key_of (cursor_position w),
                action_position = cursor_position w, action_color = 0x00ffff\<rparr>])"
  by (auto simp: createVoxelAtCursor_def Let_def has_update update_conv')

theorem createVoxelAtCursor_idempotent_witness:
  "\<not> cursorVisible new_world \<and> createVoxelAtCursor new_world = (False, new_world)
   \<and> cursorVisible one_voxel_world
   \<and> has (voxels one_voxel_world) (key_of (cursor_position one_voxel_world))
   \<and> createVoxelAtCursor one_voxel_world = (False, one_voxel_world)
   \<and> cursorVisible aimed_world
   \<and> \<not> has (voxels aimed_world) (key_of (cursor_position aimed_world))
   \<and> fst (createVoxelAtCursor aimed_world)
   \<and> length (history (snd (createVoxelAtCursor aimed_world))) = 1
   \<and> createVoxelAtCursor (snd (createVoxelAtCursor aimed_world)) =
       (False, snd (createVoxelAtCursor aimed_world))"
proof -
  have a: "\<not> cursorVisible new_world"
    by (simp add: new_world_def)
  have b: "cursorVisible one_voxel_world
      \<and> has (voxels one_voxel_world) (key_of (cursor_position one_voxel_world))"
    by (simp add: one_voxel_world_eq aimed_world_eq new_world_def key_of_def has_def)
  have c: "cursorVisible aimed_world
      \<and> \<not> has (voxels aimed_world) (key_of (cursor_position aimed_world))"
    by (simp add: aimed_world_eq new_world_def has_def)
  have h: "history aimed_world = []"
    by (simp add: aimed_world_eq new_world_def)
  show ?thesis
    using createVoxelAtCursor_idempotent [of new_world]
      createVoxelAtCursor_idempotent [of one_voxel_world]
      createVoxelAtCursor_idempotent [of aimed_world] a b c h
    by simp
qed

section \<open>Target resolution on the floor\<close>




section \<open>The per-hand classifier\<close>

text \<open>
  C4 (as amended). For every hand of 21 landmarks whose four non-thumb fingertips are
  each within curl distance of the wrist (tip-to-wrist distance below the
  knuckle-to-wrist distance scaled by 1.3) and whose thumb tip is within curl distance
  (below the thumb base joint's distance scaled by 1.4), \<open>analyzeHand\<close> returns \<open>CLOSED\<close>
  unless the pinch condition holds as well (thumb tip and index tip closer than the
  pinch threshold, and middle, ring and little fingertip each beyond 1.1 times their
  knuckle's distance); the pinch is tested first, and then the label is \<open>PINCH\<close>.
\<close>

theorem curled_hand_is_CLOSED_unless_pinching:
  assumes "length lm = 21"
    and "dist_p (lm ! 8) (lm ! 0) < dist_p (lm ! 5) (lm ! 0) * (13 / 10)"
    and "dist_p (lm ! 12) (lm ! 0) < dist_p (lm ! 9) (lm ! 0) * (13 / 10)"
    and "dist_p (lm ! 16) (lm ! 0) < dist_p (lm ! 13) (lm ! 0) * (13 / 10)"
    and "dist_p (lm ! 20) (lm ! 0) < dist_p (lm ! 17) (lm ! 0) * (13 / 10)"
    and "dist_p (lm ! 4) (lm ! 0) < dist_p (lm ! 2) (lm ! 0) * (14 / 10)"
  shows "\<exists>a r1. analyzeHand lm r = (Inr a, r1) \<and>
           gesture_of a = (if isPinching (pinchThreshold r) lm then PINCH else CLOSED)"
proof -
  have "classify (pinchThreshold r) lm =
          (if isPinching (pinchThreshold r) lm then PINCH else CLOSED)"
    using assms(2-6)
    by (intro classify_fist)
       (simp_all add: indexCurled_def middleCurled_def ringCurled_def pinkyCurled_def
          thumbCurled_def curlFactor_def)
  then show ?thesis
    using assms(1) by (simp add: analyzeHand_ok)
qed

text \<open>
  The loosely closed hand meets all five curl conditions of the unamended statement and
  is labelled \<open>PINCH\<close> by a recognizer with the default threshold.
\<close>

theorem curled_hand_labelled_PINCH:
  "length pinched_fist = 21
   \<and> dist_p (pinched_fist ! 8) (pinched_fist ! 0)
       < dist_p (pinched_fist ! 5) (pinched_fist ! 0) * (13 / 10)
   \<and> dist_p (pinched_fist ! 12) (pinched_fist ! 0)
       < dist_p (pinched_fist ! 9) (pinched_fist ! 0) * (13 / 10)
   \<and> dist_p (pinched_fist ! 16) (pinched_fist ! 0)
       < dist_p (pinched_fist ! 13) (pinched_fist ! 0) * (13 / 10)
   \<and> dist_p (pinched_fist ! 20) (pinched_fist ! 0)
       < dist_p (pinched_fist ! 17) (pinched_fist ! 0) * (13 / 10)
   \<and> dist_p (pinched_fist ! 4) (pinched_fist ! 0)
       < dist_p (pinched_fist ! 2) (pinched_fist ! 0) * (14 / 10)
   \<and> map_sum id gesture_of (fst (analyzeHand pinched_fist (constructor None))) = Inr PINCH"
  by (simp add: analyzeHand_def constructor_def Let_def pinched_fist_def hand_defs)

theorem curled_hand_is_CLOSED_unless_pinching_witness:
  "length fist_hand = 21
   \<and> dist_p (fist_hand ! 8) (fist_hand ! 0) < dist_p (fist_hand ! 5) (fist_hand ! 0) * (13 / 10)
   \<and> dist_p (fist_hand ! 12) (fist_hand ! 0) < dist_p (fist_hand ! 9) (fist_hand ! 0) * (13 / 10)
   \<and> dist_p (fist_hand ! 16) (fist_hand ! 0) < dist_p (fist_hand ! 13) (fist_hand ! 0) * (13 / 10)
   \<and> dist_p (fist_hand ! 20) (fist_hand ! 0) < dist_p (fist_hand ! 17) (fist_hand ! 0) * (13 / 10)
   \<and> dist_p (fist_hand ! 4) (fist_hand ! 0) < dist_p (fist_hand ! 2) (fist_hand ! 0) * (14 / 10)
   \<and> \<not> isPinching (pinchThreshold (constructor None)) fist_hand
   \<and> (\<exists>a r1. analyzeHand fist_hand (constructor None) = (Inr a, r1) \<and> gesture_of a = CLOSED)"
proof -
  have h: "length fist_hand = 21"
    "dist_p (fist_hand ! 8) (fist_hand ! 0) < dist_p (fist_hand ! 5) (fist_hand ! 0) * (13 / 10)"
    "dist_p (fist_hand ! 12) (fist_hand ! 0) < dist_p (fist_hand ! 9) (fist_hand ! 0) * (13 / 10)"
    "dist_p (fist_hand ! 16) (fist_hand ! 0) < dist_p (fist_hand ! 13) (fist_hand ! 0) * (13 / 10)"
    "dist_p (fist_hand ! 20) (fist_hand ! 0) < dist_p (fist_hand ! 17) (fist_hand ! 0) * (13 / 10)"
    "dist_p (fist_hand ! 4) (fist_hand ! 0) < dist_p (fist_hand ! 2) (fist_hand ! 0) * (14 / 10)"
    by (simp_all add: fist_hand_def hand_on_line_def)
  have np: "\<not> isPinching (pinchThreshold (constructor None)) fist_hand"
    by (simp add: fist_hand_def hand_defs constructor_def)
  show ?thesis
    using curled_hand_is_CLOSED_unless_pinching [OF h, of "constructor None"] h np by simp
qed

subsection \<open>Scaling a pinch\<close>

lemma isPinching_pinch_tests:
  "isPinching thr lm \<longleftrightarrow> pinch_tests dist_p (\<lambda>v. v * (11 / 10)) thr lm"
  by (auto simp: isPinching_def thumbIndexClose_def pinchDist_def otherFingersExtended_def
      middleExtended_def ringExtended_def pinkyExtended_def pinch_tests_def)

text \<open>
  A ratio test that holds with the margin \<open>10\<^sup>-\<^sup>6\<close> still holds for values within the
  relative error \<open>10\<^sup>-\<^sup>9\<close> of the knuckle distance \<open>K\<close>, of its product and of the tip distance
  \<open>T\<close>.
\<close>

lemma close_to_bounds: "close_to eps E v \<Longrightarrow> v \<le> E * (1 + eps) \<and> E * (1 - eps) \<le> v"
  unfolding close_to_def by (auto simp: abs_le_iff algebra_simps)

lemma ratio_test_robust:
  fixes K T k b a :: real
  assumes K: "0 \<le> K" and strict: "K * (11 / 10) < T"
    and margin: "K * (11 / 10) * (1 + 1 / 10 ^ 6) \<le> T"
    and k: "close_to (1 / 10 ^ 9) K k"
    and b: "close_to (1 / 10 ^ 9) (k * (11 / 10)) b"
    and a: "close_to (1 / 10 ^ 9) T a"
  shows "b < a"
proof -
  have "0 \<le> K * (11 / 10)" using K by simp
  with strict have T: "0 < T" by linarith
  have k_hi: "k \<le> K * (1 + 1 / 10 ^ 9)" and k_lo': "K * (1 - 1 / 10 ^ 9) \<le> k"
    using close_to_bounds [OF k] by simp_all
  have "0 \<le> K * (1 - 1 / 10 ^ 9)"
    using K by (intro mult_nonneg_nonneg) simp_all
  with k_lo' have k_lo: "0 \<le> k" by linarith
  have "b \<le> k * (11 / 10) * (1 + 1 / 10 ^ 9)"
    using close_to_bounds [OF b] by simp
  also have "\<dots> \<le> (K * (1 + 1 / 10 ^ 9)) * (11 / 10) * (1 + 1 / 10 ^ 9)"
    using k_hi by (intro mult_right_mono) simp_all
  finally have b_hi: "b \<le> K * (11 / 10) * ((1 + 1 / 10 ^ 9) * (1 + 1 / 10 ^ 9))"
    by (simp add: mult_ac)
  have a_lo: "T * (1 - 1 / 10 ^ 9) \<le> a"
    using close_to_bounds [OF a] by simp
  show ?thesis
  proof (cases "K = 0")
    case True
    with b_hi have "b \<le> 0" by simp
    moreover have "0 < T * (1 - 1 / 10 ^ 9)" using T by simp
    ultimately show ?thesis using a_lo by linarith
  next
    case False
    with K have Kpos: "0 < K * (11 / 10)" by simp
    have num: "(1 + 1 / 10 ^ 9) * (1 + 1 / 10 ^ 9) < (1 + 1 / 10 ^ 6) * (1 - 1 / 10 ^ 9 :: real)"
      by simp
    have "K * (11 / 10) * ((1 + 1 / 10 ^ 9) * (1 + 1 / 10 ^ 9))
            < K * (11 / 10) * ((1 + 1 / 10 ^ 6) * (1 - 1 / 10 ^ 9))"
      using Kpos num by (rule mult_strict_left_mono [rotated])
    also have "\<dots> = (K * (11 / 10) * (1 + 1 / 10 ^ 6)) * (1 - 1 / 10 ^ 9)"
      by (simp add: mult_ac)
    also have "\<dots> \<le> T * (1 - 1 / 10 ^ 9)"
      using margin by (intro mult_right_mono) simp_all
    finally show ?thesis using b_hi a_lo by linarith
  qed
qed

lemma threshold_test_robust:
  fixes D thr c :: real
  assumes D: "0 \<le> D" and thr: "0 < thr"
    and margin: "D \<le> thr * (1 - 1 / 10 ^ 6)"
    and c: "close_to (1 / 10 ^ 9) D c"
  shows "c < thr"
proof -
  have "c \<le> D * (1 + 1 / 10 ^ 9)"
    using close_to_bounds [OF c] by simp
  also have "\<dots> \<le> (thr * (1 - 1 / 10 ^ 6)) * (1 + 1 / 10 ^ 9)"
    using margin by (intro mult_right_mono) simp_all
  also have "\<dots> = thr * ((1 - 1 / 10 ^ 6) * (1 + 1 / 10 ^ 9))"
    by (simp add: mult_ac)
  also have "\<dots> < thr * 1"
    using thr by (intro mult_strict_left_mono) simp_all
  finally show ?thesis by simp
qed

text \<open>
  C5 (as amended). The three ratio tests of the pinch are scale-invariant in exact
  arithmetic, the test of the thumb-to-index distance against the pinch threshold is
  absolute, and the code evaluates all of them in rounded arithmetic. For every hand that
  \<open>analyzeHand\<close> labels \<open>PINCH\<close> with the relative margin \<open>10\<^sup>-\<^sup>6\<close> in its three ratio tests
  (the distance from the wrist of the middle, ring and little fingertip is at least
  \<open>1.1 \<times> (1 + 10\<^sup>-\<^sup>6)\<close> times that of its knuckle), and for every positive factor \<open>s\<close> that
  keeps the scaled thumb-to-index distance at or below \<open>(1 - 10\<^sup>-\<^sup>6)\<close> times the pinch
  threshold, the hand with all landmark coordinates multiplied by \<open>s\<close> passes the pinch
  tests, and so is labelled \<open>PINCH\<close>, in exact arithmetic and in every evaluation that
  returns the seven distances and the three products of the pinch tests of the scaled
  hand within the relative error \<open>10\<^sup>-\<^sup>9\<close>.
\<close>

theorem pinch_scaling_below_threshold:
  assumes s: "0 < s"
    and lab: "analyzeHand lm r = (Inr a, r1)" "gesture_of a = PINCH"
    and middle: "dist_p (lm ! 9) (lm ! 0) * (11 / 10) * (1 + 1 / 10 ^ 6) \<le> dist_p (lm ! 12) (lm ! 0)"
    and ring: "dist_p (lm ! 13) (lm ! 0) * (11 / 10) * (1 + 1 / 10 ^ 6) \<le> dist_p (lm ! 16) (lm ! 0)"
    and pinky: "dist_p (lm ! 17) (lm ! 0) * (11 / 10) * (1 + 1 / 10 ^ 6) \<le> dist_p (lm ! 20) (lm ! 0)"
    and below: "s * dist_p (lm ! 4) (lm ! 8) \<le> pinchThreshold r * (1 - 1 / 10 ^ 6)"
    and acc: "accurate (1 / 10 ^ 9) d m (scale_landmarks s lm)"
  shows "pinch_tests d m (pinchThreshold r) (scale_landmarks s lm)
       \<and> (\<exists>a' r1'. analyzeHand (scale_landmarks s lm) r = (Inr a', r1') \<and> gesture_of a' = PINCH)"
proof -
  let ?thr = "pinchThreshold r" and ?lm = "scale_landmarks s lm"
  from lab have len: "21 \<le> length lm" and pinch: "isPinching ?thr lm"
    using analyzeHand_Inr [of lm r a r1] by (simp_all add: classify_PINCH)
  from pinch have close: "dist_p (lm ! 4) (lm ! 8) < ?thr"
    and m0: "dist_p (lm ! 9) (lm ! 0) * (11 / 10) < dist_p (lm ! 12) (lm ! 0)"
    and r0: "dist_p (lm ! 13) (lm ! 0) * (11 / 10) < dist_p (lm ! 16) (lm ! 0)"
    and p0: "dist_p (lm ! 17) (lm ! 0) * (11 / 10) < dist_p (lm ! 20) (lm ! 0)"
    by (simp_all add: isPinching_def thumbIndexClose_def pinchDist_def otherFingersExtended_def
        middleExtended_def ringExtended_def pinkyExtended_def)
  have thr: "0 < ?thr"
    using close dist_p_nonneg [of "lm ! 4" "lm ! 8"] by linarith
  have sc: "dist_p (?lm ! i) (?lm ! j) = s * dist_p (lm ! i) (lm ! j)" if "i < 21" "j < 21" for i j
    using that len s by (simp add: scale_nth dist_p_scale)
  have nn: "0 \<le> s * dist_p p q" for p q
    using s dist_p_nonneg [of p q] by simp
  have up: "s * (K * (11 / 10)) < s * T" if "K * (11 / 10) < T" for K T :: real
    using that s by simp
  have upm: "s * (K * (11 / 10) * (1 + 1 / 10 ^ 6)) \<le> s * T"
    if "K * (11 / 10) * (1 + 1 / 10 ^ 6) \<le> T" for K T :: real
    using that s by simp
  have A: "close_to (1 / 10 ^ 9) (s * dist_p (lm ! 4) (lm ! 8)) (d (?lm ! 4) (?lm ! 8))"
    "close_to (1 / 10 ^ 9) (s * dist_p (lm ! 12) (lm ! 0)) (d (?lm ! 12) (?lm ! 0))"
    "close_to (1 / 10 ^ 9) (s * dist_p (lm ! 9) (lm ! 0)) (d (?lm ! 9) (?lm ! 0))"
    "close_to (1 / 10 ^ 9) (s * dist_p (lm ! 16) (lm ! 0)) (d (?lm ! 16) (?lm ! 0))"
    "close_to (1 / 10 ^ 9) (s * dist_p (lm ! 13) (lm ! 0)) (d (?lm ! 13) (?lm ! 0))"
    "close_to (1 / 10 ^ 9) (s * dist_p (lm ! 20) (lm ! 0)) (d (?lm ! 20) (?lm ! 0))"
    "close_to (1 / 10 ^ 9) (s * dist_p (lm ! 17) (lm ! 0)) (d (?lm ! 17) (?lm ! 0))"
    "close_to (1 / 10 ^ 9) (d (?lm ! 9) (?lm ! 0) * (11 / 10)) (m (d (?lm ! 9) (?lm ! 0)))"
    "close_to (1 / 10 ^ 9) (d (?lm ! 13) (?lm ! 0) * (11 / 10)) (m (d (?lm ! 13) (?lm ! 0)))"
    "close_to (1 / 10 ^ 9) (d (?lm ! 17) (?lm ! 0) * (11 / 10)) (m (d (?lm ! 17) (?lm ! 0)))"
    using acc unfolding accurate_def by (simp_all add: sc)
  have t1: "d (?lm ! 4) (?lm ! 8) < ?thr"
    using nn thr below A(1) by (rule threshold_test_robust)
  have t2: "m (d (?lm ! 9) (?lm ! 0)) < d (?lm ! 12) (?lm ! 0)"
    by (rule ratio_test_robust [OF nn _ _ A(3) A(8) A(2)])
       (simp_all only: mult.assoc [symmetric] up [OF m0, simplified mult.assoc [symmetric]]
          upm [OF middle, simplified mult.assoc [symmetric]])
  have t3: "m (d (?lm ! 13) (?lm ! 0)) < d (?lm ! 16) (?lm ! 0)"
    by (rule ratio_test_robust [OF nn _ _ A(5) A(9) A(4)])
       (simp_all only: mult.assoc [symmetric] up [OF r0, simplified mult.assoc [symmetric]]
          upm [OF ring, simplified mult.assoc [symmetric]])
  have t4: "m (d (?lm ! 17) (?lm ! 0)) < d (?lm ! 20) (?lm ! 0)"
    by (rule ratio_test_robust [OF nn _ _ A(7) A(10) A(6)])
       (simp_all only: mult.assoc [symmetric] up [OF p0, simplified mult.assoc [symmetric]]
          upm [OF pinky, simplified mult.assoc [symmetric]])
  have tests: "pinch_tests d m ?thr ?lm"
    using t1 t2 t3 t4 by (simp add: pinch_tests_def)
  have "s * pinchDist lm < ?thr"
    using below thr by (simp add: pinchDist_def)
  then have "isPinching ?thr ?lm"
    using s len pinch
    by (simp add: isPinching_def thumbIndexClose_def pinchDist_scale otherFingersExtended_scale)
  then have "classify ?thr ?lm = PINCH"
    by (simp add: classify_PINCH)
  moreover have "21 \<le> length ?lm"
    using len by (simp add: scale_landmarks_def)
  ultimately have "\<exists>a' r1'. analyzeHand ?lm r = (Inr a', r1') \<and> gesture_of a' = PINCH"
    by (simp add: analyzeHand_ok)
  with tests show ?thesis by blast
qed

text \<open>
  Scaling by any positive factor does not keep the label: the example pinch, with thumb
  tip and index tip 0.04 apart, is labelled \<open>PINCH\<close> under the default threshold 0.05,
  and the same hand scaled by 2 is labelled \<open>OPEN_PALM\<close>.
\<close>

theorem pinch_not_scale_invariant:
  "map_sum id gesture_of (fst (analyzeHand pinch_hand (constructor None))) = Inr PINCH
   \<and> (0::real) < 2
   \<and> map_sum id gesture_of (fst (analyzeHand (scale_landmarks 2 pinch_hand) (constructor None)))
       = Inr OPEN_PALM"
  by (simp add: analyzeHand_def constructor_def Let_def pinch_hand_def hand_defs
      scale_landmarks_def scale_point_def)

text \<open>
  The example pinch scaled by 1/2, with an evaluation that returns every distance too
  large and every product too small by one part in \<open>10\<^sup>1\<^sup>0\<close>.
\<close>

theorem pinch_scaling_below_threshold_witness:
  "(0::real) < 1 / 2
   \<and> map_sum id gesture_of (fst (analyzeHand pinch_hand (constructor None))) = Inr PINCH
   \<and> accurate (1 / 10 ^ 9) (\<lambda>p q. dist_p p q * (1 + 1 / 10 ^ 10))
        (\<lambda>v. v * (11 / 10) * (1 - 1 / 10 ^ 10)) (scale_landmarks (1 / 2) pinch_hand)
   \<and> pinch_tests (\<lambda>p q. dist_p p q * (1 + 1 / 10 ^ 10))
        (\<lambda>v. v * (11 / 10) * (1 - 1 / 10 ^ 10)) (5 / 100) (scale_landmarks (1 / 2) pinch_hand)
   \<and> (\<exists>a' r1'. analyzeHand (scale_landmarks (1 / 2) pinch_hand) (constructor None) = (Inr a', r1')
         \<and> gesture_of a' = PINCH)"
proof -
  have len: "21 \<le> length pinch_hand" by (simp add: pinch_hand_def hand_on_line_def)
  have thr: "pinchThreshold (constructor None) = 5 / 100"
    by (simp add: constructor_def)
  have g: "classify (pinchThreshold (constructor None)) pinch_hand = PINCH"
    by (simp add: constructor_def pinch_hand_def hand_defs)
  note ok = analyzeHand_ok [OF len, of "constructor None"]
  have margins:
    "dist_p (pinch_hand ! 9) (pinch_hand ! 0) * (11 / 10) * (1 + 1 / 10 ^ 6)
       \<le> dist_p (pinch_hand ! 12) (pinch_hand ! 0)"
    "dist_p (pinch_hand ! 13) (pinch_hand ! 0) * (11 / 10) * (1 + 1 / 10 ^ 6)
       \<le> dist_p (pinch_hand ! 16) (pinch_hand ! 0)"
    "dist_p (pinch_hand ! 17) (pinch_hand ! 0) * (11 / 10) * (1 + 1 / 10 ^ 6)
       \<le> dist_p (pinch_hand ! 20) (pinch_hand ! 0)"
    "1 / 2 * dist_p (pinch_hand ! 4) (pinch_hand ! 8)
       \<le> pinchThreshold (constructor None) * (1 - 1 / 10 ^ 6)"
    by (simp_all add: pinch_hand_def hand_on_line_def thr)
  have acc: "accurate (1 / 10 ^ 9) (\<lambda>p q. dist_p p q * (1 + 1 / 10 ^ 10))
        (\<lambda>v. v * (11 / 10) * (1 - 1 / 10 ^ 10)) (scale_landmarks (1 / 2) pinch_hand)"
    by (simp add: accurate_def close_to_def pinch_hand_def hand_on_line_def scale_landmarks_def
        scale_point_def)
  show ?thesis
    using pinch_scaling_below_threshold [of "1 / 2", OF _ ok _ margins acc] g ok acc thr
    by simp
qed

subsection \<open>The shared position buffer\<close>

text \<open>
  C10. The position buffer belongs to the recognizer, not to a hand. \<open>analyzeHand\<close>
  appends the raw pinch midpoint of the hand it is given to that one buffer whatever the
  gesture is. So in a frame with two detected hands the buffer ends with the first
  hand's raw midpoint followed by the second hand's, and the \<open>pinchCenter\<close> returned for
  the second hand is the arithmetic mean over that buffer, the first hand's midpoint of
  the same frame included.
\<close>

theorem positionBuffer_shared_across_hands:
  assumes "length h1 = 21" and "length h2 = 21"
  shows "\<exists>a1 a2 r1 r2 ys zs.
           analyzeHand h1 r = (Inr a1, r1)
           \<and> positionBuffer r1 = ys @ [rawPinchCenter h1]
           \<and> analyzeHands [h1, h2] r = (Inr [a1, a2], r2)
           \<and> positionBuffer r2 = zs @ [rawPinchCenter h1, rawPinchCenter h2]
           \<and> pinchCenter a2 =
               Point3 (sum_list (map px (positionBuffer r2)) / real (length (positionBuffer r2)))
                      (sum_list (map py (positionBuffer r2)) / real (length (positionBuffer r2)))
                      (sum_list (map pz (positionBuffer r2)) / real (length (positionBuffer r2)))"
proof -
  obtain ys where ys:
    "push_shift positionBufferSize (positionBuffer r) (rawPinchCenter h1) = ys @ [rawPinchCenter h1]"
    using push_shift_snoc [of positionBufferSize "positionBuffer r" "rawPinchCenter h1"]
    by (auto simp: positionBufferSize_def)
  obtain zs where zs:
    "push_shift positionBufferSize (ys @ [rawPinchCenter h1]) (rawPinchCenter h2) =
       zs @ [rawPinchCenter h1, rawPinchCenter h2]"
    using push_shift_snoc2 [of positionBufferSize ys "rawPinchCenter h1" "rawPinchCenter h2"]
    by (auto simp: positionBufferSize_def)
  show ?thesis
    using assms ys zs by (simp add: analyzeHand_ok smoothed_mean)
qed

theorem positionBuffer_shared_across_hands_witness:
  "length fist_hand = 21 \<and> length open_hand = 21
   \<and> rawPinchCenter fist_hand = Point3 (1 / 2) (3 / 4) 0
   \<and> rawPinchCenter open_hand = Point3 (1 / 2) (55 / 100) 0
   \<and> map_sum id (map pinchCenter) (fst (analyzeHands [fist_hand, open_hand] (constructor None)))
       = Inr [Point3 (1 / 2) (3 / 4) 0, Point3 (1 / 2) (65 / 100) 0]"
proof -
  have l: "length fist_hand = 21" "length open_hand = 21"
    by (simp_all add: fist_hand_def open_hand_def hand_on_line_def)
  have raw: "rawPinchCenter fist_hand = Point3 (1 / 2) (3 / 4) 0"
    "rawPinchCenter open_hand = Point3 (1 / 2) (55 / 100) 0"
    by (simp_all add: rawPinchCenter_def fist_hand_def open_hand_def hand_on_line_def)
  have "positionBuffer (constructor None) = []"
    by (simp add: constructor_def)
  then show ?thesis
    using positionBuffer_shared_across_hands [OF l, of "constructor None"] l raw
    by (simp add: analyzeHand_ok push_shift_def positionBufferSize_def smoothed_mean)
qed

section \<open>Two-hand zoom and the pinch debounce\<close>

text \<open>
  C8. In a frame with exactly two detected hands, analysed as \<open>a1\<close> and \<open>a2\<close>: when one
  is \<open>CLOSED\<close> and the other \<open>OPEN_PALM\<close>, in either order, \<open>update\<close> returns \<open>ZOOM_OUT\<close>
  with both analyses, whatever the recognizer's buffers hold, and leaves the swipe
  history, the gesture history and the stable label untouched; \<open>handleInteraction\<close>,
  called as the main loop calls it (no single hand, the first hand's landmarks), then
  sets the camera distance to \<open>min 20 (z + 0.2)\<close> and the state to \<open>ZOOMING\<close> and returns:
  beyond the cursor update that precedes the zoom test, nothing else of the interaction
  state or the world changes. When both hands are \<open>CLOSED\<close>, \<open>update\<close> returns \<open>ZOOM_IN\<close>
  and the handler sets the camera distance to \<open>max 2 (z - 0.2)\<close>, likewise.
\<close>

theorem two_hand_zoom:
  assumes "analyzeHands [h1, h2] r = (Inr [a1, a2], r1)"
  shows "swipe_history r1 = swipe_history r \<and> gestureHistory r1 = gestureHistory r
         \<and> lastStableGesture r1 = lastStableGesture r
         \<and> ((gesture_of a1 = CLOSED \<and> gesture_of a2 = OPEN_PALM)
              \<or> (gesture_of a1 = OPEN_PALM \<and> gesture_of a2 = CLOSED) \<longrightarrow>
             update [h1, h2] r =
               (Inr \<lparr>out_gesture = ZOOM_OUT, out_hand = None, out_hands = [a1, a2]\<rparr>, r1)
             \<and> handleInteraction ZOOM_OUT None (Some h1) now voxelIntersects intersects s =
                 Inr (s\<lparr>world := (snd (updateCursorFromHand voxelIntersects intersects (world s)))
                               \<lparr>camera_position_z := min 20 (camera_position_z (world s) + 2 / 10)\<rparr>,
                        interactionState := ZOOMING\<rparr>))
         \<and> (gesture_of a1 = CLOSED \<and> gesture_of a2 = CLOSED \<longrightarrow>
             update [h1, h2] r =
               (Inr \<lparr>out_gesture = ZOOM_IN, out_hand = None, out_hands = [a1, a2]\<rparr>, r1)
             \<and> handleInteraction ZOOM_IN None (Some h1) now voxelIntersects intersects s =
                 Inr (s\<lparr>world := (snd (updateCursorFromHand voxelIntersects intersects (world s)))
                               \<lparr>camera_position_z := max 2 (camera_position_z (world s) - 2 / 10)\<rparr>,
                        interactionState := ZOOMING\<rparr>))"
proof -
  obtain b1 q1 where h1: "analyzeHand h1 r = (Inr b1, q1)"
    using assms by (auto split: prod.splits sum.splits)
  then have len: "21 \<le> length h1" and q1: "swipe_history q1 = swipe_history r"
    "gestureHistory q1 = gestureHistory r" "lastStableGesture q1 = lastStableGesture r"
    using analyzeHand_Inr [OF h1] by simp_all
  obtain b2 q2 where h2: "analyzeHand h2 q1 = (Inr b2, q2)"
    using assms h1 by (auto split: prod.splits sum.splits)
  then have q2: "swipe_history q2 = swipe_history q1"
    "gestureHistory q2 = gestureHistory q1" "lastStableGesture q2 = lastStableGesture q1"
    using analyzeHand_Inr [OF h2] by simp_all
  have r1: "r1 = q2" using assms h1 h2 by simp
  have frame: "swipe_history r1 = swipe_history r \<and> gestureHistory r1 = gestureHistory r
         \<and> lastStableGesture r1 = lastStableGesture r"
    using r1 q1 q2 by simp
  have pt: "pointer_point None (Some h1) = Inr (px (h1 ! 8), py (h1 ! 8))"
    using len by (simp add: pointer_point_def)
  have out: "handleInteraction ZOOM_OUT None (Some h1) now voxelIntersects intersects s =
                 Inr (s\<lparr>world := (snd (updateCursorFromHand voxelIntersects intersects (world s)))
                               \<lparr>camera_position_z := min 20 (camera_position_z (world s) + 2 / 10)\<rparr>,
                        interactionState := ZOOMING\<rparr>)"
    using pt by (simp add: handleInteraction_def Let_def update_cursor_frame)
  have inn: "handleInteraction ZOOM_IN None (Some h1) now voxelIntersects intersects s =
                 Inr (s\<lparr>world := (snd (updateCursorFromHand voxelIntersects intersects (world s)))
                               \<lparr>camera_position_z := max 2 (camera_position_z (world s) - 2 / 10)\<rparr>,
                        interactionState := ZOOMING\<rparr>)"
    using pt by (simp add: handleInteraction_def Let_def update_cursor_frame)
  have upd_out: "update [h1, h2] r =
      (Inr \<lparr>out_gesture = ZOOM_OUT, out_hand = None, out_hands = [a1, a2]\<rparr>, r1)"
    if "(gesture_of a1 = CLOSED \<and> gesture_of a2 = OPEN_PALM)
          \<or> (gesture_of a1 = OPEN_PALM \<and> gesture_of a2 = CLOSED)"
    using that assms by (auto simp: update_def Let_def)
  have upd_in: "update [h1, h2] r =
      (Inr \<lparr>out_gesture = ZOOM_IN, out_hand = None, out_hands = [a1, a2]\<rparr>, r1)"
    if "gesture_of a1 = CLOSED \<and> gesture_of a2 = CLOSED"
    using that assms by (simp add: update_def Let_def)
  show ?thesis
    using frame out inn upd_out upd_in by blast
qed

theorem two_hand_zoom_witness:
  "map_sum id (map gesture_of) (fst (analyzeHands [fist_hand, open_hand] (constructor None)))
     = Inr [CLOSED, OPEN_PALM]
   \<and> map_sum id out_gesture (fst (update [fist_hand, open_hand] (constructor None))) = Inr ZOOM_OUT
   \<and> map_sum id (\<lambda>s. (camera_position_z (world s), interactionState s))
       (handleInteraction ZOOM_OUT None (Some fist_hand) 1000 [] [] (new_app new_world))
       = Inr (41 / 5, ZOOMING)
   \<and> map_sum id (map gesture_of) (fst (analyzeHands [fist_hand, fist_hand] (constructor None)))
     = Inr [CLOSED, CLOSED]
   \<and> map_sum id out_gesture (fst (update [fist_hand, fist_hand] (constructor None))) = Inr ZOOM_IN
   \<and> map_sum id (\<lambda>s. (camera_position_z (world s), interactionState s))
       (handleInteraction ZOOM_IN None (Some fist_hand) 1000 [] [] (new_app new_world))
       = Inr (39 / 5, ZOOMING)"
proof -
  have l: "21 \<le> length fist_hand" "21 \<le> length open_hand"
    by (simp_all add: fist_hand_def open_hand_def hand_on_line_def)
  have thr: "pinchThreshold (constructor None) = 5 / 100"
    by (simp add: constructor_def)
  have g: "classify (5 / 100) fist_hand = CLOSED" "classify (5 / 100) open_hand = OPEN_PALM"
    by (simp_all add: fist_hand_def open_hand_def hand_defs)
  obtain a1 a2 r1 where ah: "analyzeHands [fist_hand, open_hand] (constructor None) = (Inr [a1, a2], r1)"
    and ga: "gesture_of a1 = CLOSED" "gesture_of a2 = OPEN_PALM"
    using l g thr by (simp add: analyzeHand_ok)
  obtain b1 b2 q1 where bh: "analyzeHands [fist_hand, fist_hand] (constructor None) = (Inr [b1, b2], q1)"
    and gb: "gesture_of b1 = CLOSED" "gesture_of b2 = CLOSED"
    using l g thr by (simp add: analyzeHand_ok)
  have z: "camera_position_z (world (new_app new_world)) = 8"
    by (simp add: new_app_def new_world_def)
  show ?thesis
    using two_hand_zoom [OF ah, of 1000 "[]" "[]" "new_app new_world"]
      two_hand_zoom [OF bh, of 1000 "[]" "[]" "new_app new_world"] ah ga bh gb z
    by simp
qed

text \<open>
  C9. \<open>lastClosedTime\<close> is the time of the last rotation frame: a frame with the gesture
  \<open>CLOSED\<close> is a rotation frame, it ends in \<open>ROTATING\<close> and records \<open>lastClosedTime = now\<close>,
  and a frame with any other gesture leaves \<open>lastClosedTime\<close> as it was. When the gesture
  is \<open>PINCH\<close> and the interaction state is \<open>ROTATING\<close> or \<open>ZOOMING\<close>, the pinch is
  accepted only if at least 300 ms have passed since that time: then the frame ends in
  \<open>DRAW_WAIT\<close> with the pinch start time set to now and the placed-this-hold flag
  cleared. Within the 300 ms window the handler returns right after the cursor update:
  the state, the timers, the flag, the last point and the last gesture are all as before.
  In particular, for a pinch frame at \<open>now\<close> on the state \<open>rotated\<close> that a rotation
  frame at \<open>rotationTime\<close> left, the window is \<open>now - rotationTime < 300\<close>.
\<close>

theorem pinch_debounce_after_rotation:
  assumes "pointer_point handState landmarks = Inr (pointX, pointY)"
  shows "(\<exists>s'. handleInteraction CLOSED handState landmarks now voxelIntersects intersects s = Inr s'
            \<and> interactionState s' = ROTATING \<and> lastClosedTime s' = now)
       \<and> (gesture \<noteq> CLOSED \<longrightarrow>
            (\<exists>s'. handleInteraction gesture handState landmarks now voxelIntersects intersects s
                    = Inr s'
               \<and> lastClosedTime s' = lastClosedTime s))
       \<and> ((interactionState s = ROTATING \<or> interactionState s = ZOOMING)
            \<and> now - lastClosedTime s < 300 \<longrightarrow>
            handleInteraction PINCH handState landmarks now voxelIntersects intersects s =
              Inr (s\<lparr>world := snd (updateCursorFromHand voxelIntersects intersects (world s))\<rparr>))
       \<and> ((interactionState s = ROTATING \<or> interactionState s = ZOOMING)
            \<and> 300 \<le> now - lastClosedTime s \<longrightarrow>
            (\<exists>s'. handleInteraction PINCH handState landmarks now voxelIntersects intersects s = Inr s'
               \<and> interactionState s' = DRAW_WAIT \<and> pinchStartTime s' = now
               \<and> \<not> blockPlacedThisPinch s'))
       \<and> (handleInteraction CLOSED prevHand prevLandmarks rotationTime prevVoxelIntersects
              prevIntersects before = Inr rotated
            \<longrightarrow>
            (now - rotationTime < 300 \<longrightarrow>
               handleInteraction PINCH handState landmarks now voxelIntersects intersects rotated =
                 Inr (rotated\<lparr>world :=
                        snd (updateCursorFromHand voxelIntersects intersects (world rotated))\<rparr>))
            \<and> (300 \<le> now - rotationTime \<longrightarrow>
               (\<exists>s'. handleInteraction PINCH handState landmarks now voxelIntersects intersects rotated
                       = Inr s'
                  \<and> interactionState s' = DRAW_WAIT \<and> pinchStartTime s' = now
                  \<and> \<not> blockPlacedThisPinch s')))"
proof (intro conjI impI)
  show "\<exists>s'. handleInteraction CLOSED handState landmarks now voxelIntersects intersects s = Inr s'
            \<and> interactionState s' = ROTATING \<and> lastClosedTime s' = now"
    using assms
    by (auto simp: handleInteraction_def transition_def state_action_def Let_def
        split: option.splits)
next
  assume g: "gesture \<noteq> CLOSED"
  let ?s1 = "s\<lparr>world := snd (updateCursorFromHand voxelIntersects intersects (world s))\<rparr>"
  show "\<exists>s'. handleInteraction gesture handState landmarks now voxelIntersects intersects s = Inr s'
            \<and> lastClosedTime s' = lastClosedTime s"
  proof (cases "gesture = ZOOM_IN \<or> gesture = ZOOM_OUT")
    case True
    then show ?thesis
      using assms by (auto simp: handleInteraction_def Let_def)
  next
    case False
    show ?thesis
    proof (cases "transition gesture ((1 - pointX) * 2 - 1) (1 - pointY * 2) now ?s1")
      case None
      then show ?thesis
        using assms False by (simp add: handleInteraction_def Let_def)
    next
      case (Some s2)
      then have "interactionState s2 \<noteq> ROTATING" and "lastClosedTime s2 = lastClosedTime s"
        using g by (auto simp: transition_def Let_def split: if_splits)
      then have "lastClosedTime (state_action ((1 - pointX) * 2 - 1) (1 - pointY * 2) now s2)
                   = lastClosedTime s"
        by (cases "interactionState s2")
           (auto simp: state_action_def Let_def split: prod.splits bool.splits)
      then show ?thesis
        using assms False Some by (simp add: handleInteraction_def Let_def)
    qed
  qed
next
  assume "(interactionState s = ROTATING \<or> interactionState s = ZOOMING)
            \<and> now - lastClosedTime s < 300"
  then show "handleInteraction PINCH handState landmarks now voxelIntersects intersects s =
              Inr (s\<lparr>world := snd (updateCursorFromHand voxelIntersects intersects (world s))\<rparr>)"
    using assms by (auto simp: handleInteraction_def transition_def Let_def)
next
  assume "(interactionState s = ROTATING \<or> interactionState s = ZOOMING)
            \<and> 300 \<le> now - lastClosedTime s"
  then show "\<exists>s'. handleInteraction PINCH handState landmarks now voxelIntersects intersects s = Inr s'
               \<and> interactionState s' = DRAW_WAIT \<and> pinchStartTime s' = now
               \<and> \<not> blockPlacedThisPinch s'"
    using assms
    by (auto simp: handleInteraction_def transition_def state_action_def Let_def BUILD_DELAY_def)
next
  assume first: "handleInteraction CLOSED prevHand prevLandmarks rotationTime prevVoxelIntersects
                   prevIntersects before = Inr rotated"
  then have rot: "interactionState rotated = ROTATING"
    and recorded: "lastClosedTime rotated = rotationTime"
    by (auto simp: handleInteraction_def transition_def state_action_def Let_def
        split: sum.splits prod.splits option.splits)
  {
    assume "now - rotationTime < 300"
    then show "handleInteraction PINCH handState landmarks now voxelIntersects intersects rotated =
                 Inr (rotated\<lparr>world :=
                        snd (updateCursorFromHand voxelIntersects intersects (world rotated))\<rparr>)"
      using assms rot recorded by (auto simp: handleInteraction_def transition_def Let_def)
  next
    assume "300 \<le> now - rotationTime"
    then show "\<exists>s'. handleInteraction PINCH handState landmarks now voxelIntersects intersects rotated
                       = Inr s'
                  \<and> interactionState s' = DRAW_WAIT \<and> pinchStartTime s' = now
                  \<and> \<not> blockPlacedThisPinch s'"
      using assms rot recorded
      by (auto simp: handleInteraction_def transition_def state_action_def Let_def BUILD_DELAY_def)
  }
qed

text \<open>
  A fist at time 1000 on the new application state, then a pinch: at 1200 it is dropped,
  at 1300 it is accepted.
\<close>

theorem pinch_debounce_after_rotation_witness:
  "pointer_point None (Some fist_hand) = Inr (1 / 2, 3 / 4)
   \<and> handleInteraction CLOSED None (Some fist_hand) 1000 [] [] (new_app new_world)
       = Inr ((new_app new_world)
               \<lparr>lastGesture := CLOSED, lastPoint := Some (0, - 1 / 2), lastClosedTime := 1000,
                 interactionState := ROTATING\<rparr>)
   \<and> map_sum id lastClosedTime
       (handleInteraction OPEN_PALM None (Some fist_hand) 1100 [] []
          ((new_app new_world)
             \<lparr>lastGesture := CLOSED, lastPoint := Some (0, - 1 / 2), lastClosedTime := 1000,
               interactionState := ROTATING\<rparr>))
       = Inr 1000
   \<and> handleInteraction PINCH None (Some fist_hand) 1200 [] []
       ((new_app new_world)
          \<lparr>lastGesture := CLOSED, lastPoint := Some (0, - 1 / 2), lastClosedTime := 1000,
            interactionState := ROTATING\<rparr>)
       = Inr ((new_app new_world)
               \<lparr>lastGesture := CLOSED, lastPoint := Some (0, - 1 / 2), lastClosedTime := 1000,
                 interactionState := ROTATING\<rparr>)
   \<and> map_sum id (\<lambda>s. (interactionState s, pinchStartTime s, blockPlacedThisPinch s))
       (handleInteraction PINCH None (Some fist_hand) 1300 [] []
          ((new_app new_world)
             \<lparr>lastGesture := CLOSED, lastPoint := Some (0, - 1 / 2), lastClosedTime := 1000,
               interactionState := ROTATING\<rparr>))
       = Inr (DRAW_WAIT, 1300, False)"
proof -
  let ?s1 = "(new_app new_world)
               \<lparr>lastGesture := CLOSED, lastPoint := Some (0, - 1 / 2), lastClosedTime := 1000,
                 interactionState := ROTATING\<rparr>"
  have pt: "pointer_point None (Some fist_hand) = Inr (1 / 2, 3 / 4)"
    by (simp add: pointer_point_def fist_hand_def hand_on_line_def)
  have w: "snd (updateCursorFromHand [] [] new_world) = new_world"
    by (simp add: updateCursorFromHand_def new_world_def)
  have first: "handleInteraction CLOSED None (Some fist_hand) 1000 [] [] (new_app new_world) = Inr ?s1"
    using pt w
    by (simp add: handleInteraction_def transition_def state_action_def Let_def new_app_def
        new_world_def sensitivity_def)
  have keep: "\<exists>s'. handleInteraction OPEN_PALM None (Some fist_hand) 1100 [] [] ?s1 = Inr s'
                \<and> lastClosedTime s' = lastClosedTime ?s1"
    using pinch_debounce_after_rotation
      [OF pt, where gesture = OPEN_PALM and now = 1100 and voxelIntersects = "[]"
         and intersects = "[]" and s = ?s1]
    by simp
  have two: "(1200 - 1000 < (300::int) \<longrightarrow>
               handleInteraction PINCH None (Some fist_hand) 1200 [] [] ?s1 =
                 Inr (?s1\<lparr>world := snd (updateCursorFromHand [] [] (world ?s1))\<rparr>))"
    using pinch_debounce_after_rotation
      [OF pt, where now = 1200 and voxelIntersects = "[]" and intersects = "[]"
         and prevHand = None and prevLandmarks = "Some fist_hand" and rotationTime = 1000
         and prevVoxelIntersects = "[]" and prevIntersects = "[]" and before = "new_app new_world"
         and rotated = ?s1]
      first
    by blast
  have three: "(300 \<le> 1300 - (1000::int) \<longrightarrow>
               (\<exists>s'. handleInteraction PINCH None (Some fist_hand) 1300 [] [] ?s1 = Inr s'
                  \<and> interactionState s' = DRAW_WAIT \<and> pinchStartTime s' = 1300
                  \<and> \<not> blockPlacedThisPinch s'))"
    using pinch_debounce_after_rotation
      [OF pt, where now = 1300 and voxelIntersects = "[]" and intersects = "[]"
         and prevHand = None and prevLandmarks = "Some fist_hand" and rotationTime = 1000
         and prevVoxelIntersects = "[]" and prevIntersects = "[]" and before = "new_app new_world"
         and rotated = ?s1]
      first
    by blast
  have dropped: "handleInteraction PINCH None (Some fist_hand) 1200 [] [] ?s1 = Inr ?s1"
    using two w by (simp add: new_app_def)
  from three obtain s' where
    "handleInteraction PINCH None (Some fist_hand) 1300 [] [] ?s1 = Inr s'"
    "interactionState s' = DRAW_WAIT" "pinchStartTime s' = 1300" "\<not> blockPlacedThisPinch s'"
    by auto
  with pt first keep dropped show ?thesis
    by auto
qed

section \<open>The majority-vote stabilizer\<close>

subsection \<open>The count table and the most frequent label\<close>

lemma map_of_bump:
  "map_of (bump kcs g) g' =
     (if g' = g then Some (case map_of kcs g of None \<Rightarrow> 1 | Some c \<Rightarrow> c + 1) else map_of kcs g')"
  by (induction kcs g rule: bump.induct) auto

lemma map_of_gestureCounts:
  "map_of (gestureCounts hist) g = (if g \<in> set hist then Some (count_list hist g) else None)"
proof (induction hist rule: rev_induct)
  case Nil
  then show ?case by (simp add: gestureCounts_def)
next
  case (snoc h hist)
  have "gestureCounts (hist @ [h]) = bump (gestureCounts hist) h"
    by (simp add: gestureCounts_def)
  with snoc show ?case
    by (auto simp: map_of_bump)
qed

lemma keys_gestureCounts: "set (map fst (gestureCounts hist)) = set hist"
proof -
  have "fst ` set (gestureCounts hist) = dom (map_of (gestureCounts hist))"
    by (simp add: dom_map_of_conv_image_fst)
  also have "\<dots> = set hist"
    by (auto simp: dom_def map_of_gestureCounts)
  finally show ?thesis by simp
qed

lemma more_frequent_count:
  "a \<in> set hist \<Longrightarrow> b \<in> set hist \<Longrightarrow>
   more_frequent (gestureCounts hist) a b =
     (if count_list hist a > count_list hist b then a else b)"
  by (simp add: more_frequent_def map_of_gestureCounts)

lemma foldl_more_frequent:
  "set (k # ks) \<subseteq> set hist \<Longrightarrow>
   foldl (more_frequent (gestureCounts hist)) k ks \<in> set (k # ks) \<and>
   (\<forall>k' \<in> set (k # ks).
      count_list hist k' \<le> count_list hist (foldl (more_frequent (gestureCounts hist)) k ks))"
proof (induction ks arbitrary: k)
  case Nil
  then show ?case by simp
next
  case (Cons k1 ks)
  let ?f = "more_frequent (gestureCounts hist)"
  have mf: "?f k k1 = (if count_list hist k > count_list hist k1 then k else k1)"
    using Cons.prems by (simp add: more_frequent_count)
  then have "set (?f k k1 # ks) \<subseteq> set hist"
    using Cons.prems by auto
  from Cons.IH [OF this]
  have in_set: "foldl ?f (?f k k1) ks \<in> set (?f k k1 # ks)"
    and mx: "\<forall>k' \<in> set (?f k k1 # ks).
               count_list hist k' \<le> count_list hist (foldl ?f (?f k k1) ks)"
    by simp_all
  from mx have top: "count_list hist (?f k k1) \<le> count_list hist (foldl ?f (?f k k1) ks)"
    by simp
  have "count_list hist k \<le> count_list hist (?f k k1)"
    "count_list hist k1 \<le> count_list hist (?f k k1)"
    using mf by auto
  with top have "count_list hist k \<le> count_list hist (foldl ?f (?f k k1) ks)"
    "count_list hist k1 \<le> count_list hist (foldl ?f (?f k k1) ks)"
    by linarith+
  moreover have "foldl ?f (?f k k1) ks \<in> set (k # k1 # ks)"
    using in_set mf by (auto split: if_splits)
  ultimately show ?case
    using mx by auto
qed

lemma reduce_most_frequent:
  assumes "hist \<noteq> []"
  shows "\<exists>m. reduce (more_frequent (gestureCounts hist)) (map fst (gestureCounts hist)) = Inr m
             \<and> m \<in> set hist \<and> (\<forall>g. count_list hist g \<le> count_list hist m)"
proof -
  let ?keys = "map fst (gestureCounts hist)"
  have ks: "set ?keys = set hist" by (rule keys_gestureCounts)
  with assms have "?keys \<noteq> []" by (metis set_empty)
  then obtain k ks where kks: "?keys = k # ks" by (cases ?keys) auto
  let ?m = "foldl (more_frequent (gestureCounts hist)) k ks"
  have sub: "set (k # ks) \<subseteq> set hist" using ks kks by simp
  from foldl_more_frequent [OF sub]
  have m_in: "?m \<in> set (k # ks)"
    and mx: "\<forall>k' \<in> set (k # ks). count_list hist k' \<le> count_list hist ?m"
    by simp_all
  have "count_list hist g \<le> count_list hist ?m" for g
  proof (cases "g \<in> set hist")
    case True
    then have "g \<in> set (k # ks)" using ks kks by simp
    with mx show ?thesis by blast
  next
    case False
    then have "count_list hist g = 0" by (simp add: count_list_0_iff)
    then show ?thesis by simp
  qed
  moreover have "?m \<in> set hist" using m_in sub by blast
  ultimately show ?thesis by (simp add: kks)
qed

lemma count_list_two: "g \<noteq> h \<Longrightarrow> count_list xs g + count_list xs h \<le> length xs"
  by (induction xs) auto

lemma count_list_tl_le: "count_list (tl xs) g \<le> count_list xs g"
  by (cases xs) auto

lemma confidence_iff:
  assumes "0 < n"
  shows "(gestureConfidenceThreshold \<le> real c / real n) \<longleftrightarrow> 6 * n \<le> 10 * c"
proof -
  have "(6 / 10 \<le> real c / real n) \<longleftrightarrow> (6 / 10 * real n \<le> real c)"
    using assms by (simp add: pos_le_divide_eq)
  also have "\<dots> \<longleftrightarrow> (real (6 * n) \<le> real (10 * c))"
    by (simp add: mult.commute)
  also have "\<dots> \<longleftrightarrow> 6 * n \<le> 10 * c"
    by (simp only: of_nat_le_iff)
  finally show ?thesis by (simp add: gestureConfidenceThreshold_def)
qed

subsection \<open>One step of the stabilizer\<close>

text \<open>
  The step never throws. It adopts a label that holds at least 60% of the new history,
  and keeps the stable label when no label does.
\<close>

lemma stabilize_post:
  "\<exists>r'. stabilize g r = (Inr (lastStableGesture r'), r')
      \<and> gestureHistory r' = push_shift gestureHistorySize (gestureHistory r) g
      \<and> (\<forall>g0. 6 * length (gestureHistory r') \<le> 10 * count_list (gestureHistory r') g0
               \<longrightarrow> lastStableGesture r' = g0)
      \<and> ((\<forall>g0. 10 * count_list (gestureHistory r') g0 < 6 * length (gestureHistory r'))
             \<longrightarrow> lastStableGesture r' = lastStableGesture r)"
proof -
  define hist where "hist = push_shift gestureHistorySize (gestureHistory r) g"
  have ne: "hist \<noteq> []"
    unfolding hist_def by (rule push_shift_nonempty) (simp add: gestureHistorySize_def)
  then have len: "0 < length hist" by simp
  from reduce_most_frequent [OF ne] obtain m where
    red: "reduce (more_frequent (gestureCounts hist)) (map fst (gestureCounts hist)) = Inr m"
    and m_in: "m \<in> set hist" and mx: "\<forall>g. count_list hist g \<le> count_list hist m"
    by blast
  define s where "s = (if 6 * length hist \<le> 10 * count_list hist m then m else lastStableGesture r)"
  define r' where "r' = r\<lparr>gestureHistory := hist, lastStableGesture := s\<rparr>"
  have st: "stabilize g r = (Inr s, r')"
    using red m_in len
    by (simp add: stabilize_def Let_def hist_def [symmetric] map_of_gestureCounts confidence_iff
        s_def r'_def)
  have h: "gestureHistory r' = hist" and l: "lastStableGesture r' = s"
    by (simp_all add: r'_def)
  have A: "s = g0" if g0: "6 * length hist \<le> 10 * count_list hist g0" for g0
  proof -
    from mx have le: "count_list hist g0 \<le> count_list hist m" by simp
    have "m = g0"
    proof (rule ccontr)
      assume "m \<noteq> g0"
      then have "count_list hist m + count_list hist g0 \<le> length hist"
        by (rule count_list_two)
      with le g0 len show False by linarith
    qed
    with g0 show ?thesis by (simp add: s_def)
  qed
  have B: "s = lastStableGesture r" if "\<forall>g0. 10 * count_list hist g0 < 6 * length hist"
  proof -
    from that have "10 * count_list hist m < 6 * length hist" by blast
    then show ?thesis by (simp add: s_def)
  qed
  have "stabilize g r = (Inr (lastStableGesture r'), r')"
    using st l by simp
  moreover have "gestureHistory r' = push_shift gestureHistorySize (gestureHistory r) g"
    using h by (simp add: hist_def)
  moreover have "\<forall>g0. 6 * length (gestureHistory r') \<le> 10 * count_list (gestureHistory r') g0
                   \<longrightarrow> lastStableGesture r' = g0"
    using A h l by simp
  moreover have "(\<forall>g0. 10 * count_list (gestureHistory r') g0 < 6 * length (gestureHistory r'))
                   \<longrightarrow> lastStableGesture r' = lastStableGesture r"
    using B h l by simp
  ultimately show ?thesis by blast
qed

subsection \<open>Feeding a sequence of labels\<close>

lemma feed_Cons:
  "stabilize g r = (Inr out, r1) \<Longrightarrow> feed gs r1 = (Inr outs, r2) \<Longrightarrow>
   feed (g # gs) r = (Inr (out # outs), r2)"
  by simp

lemma feed_total: "\<exists>outs r'. feed gs r = (Inr outs, r')"
proof (induction gs arbitrary: r)
  case Nil
  then show ?case by simp
next
  case (Cons g gs)
  from stabilize_post [of g r] obtain r1 where
    "stabilize g r = (Inr (lastStableGesture r1), r1)" by blast
  moreover from Cons.IH [of r1] obtain outs r2 where "feed gs r1 = (Inr outs, r2)" by blast
  ultimately have "feed (g # gs) r = (Inr (lastStableGesture r1 # outs), r2)"
    by (rule feed_Cons)
  then show ?case by blast
qed

lemma feed_snoc:
  "feed gs r = (Inr outs, r1) \<Longrightarrow> stabilize g r1 = (Inr out, r2) \<Longrightarrow>
   feed (gs @ [g]) r = (Inr (outs @ [out]), r2)"
proof (induction gs arbitrary: r outs)
  case Nil
  then show ?case by simp
next
  case (Cons g' gs)
  from stabilize_post [of g' r] obtain q where
    q: "stabilize g' r = (Inr (lastStableGesture q), q)" by blast
  from feed_total [of gs q] obtain outs' q' where f: "feed gs q = (Inr outs', q')" by blast
  from Cons.prems(1) q f have eq: "outs = lastStableGesture q # outs'" "r1 = q'"
    by simp_all
  from Cons.IH [OF f [unfolded eq(2) [symmetric]] Cons.prems(2)]
  have "feed (gs @ [g]) q = (Inr (outs' @ [out]), r2)" .
  with q show ?case
    by (simp add: eq)
qed

lemma push_shift_short: "length xs < n \<Longrightarrow> push_shift n xs v = xs @ [v]"
  by (simp add: push_shift_def Let_def)

lemma push_shift_full: "length xs = n \<Longrightarrow> push_shift n xs v = tl (xs @ [v])"
  by (simp add: push_shift_def Let_def)

lemma foldl_push_shift:
  "length xs \<le> n \<Longrightarrow>
   foldl (push_shift n) xs gs = drop (length xs + length gs - n) (xs @ gs)"
proof (induction gs rule: rev_induct)
  case Nil
  then show ?case by simp
next
  case (snoc g gs)
  then have ys: "foldl (push_shift n) xs gs = drop (length xs + length gs - n) (xs @ gs)"
    by simp
  show ?case
  proof (cases "length xs + length gs < n")
    case True
    then have "foldl (push_shift n) xs gs = xs @ gs" using ys by simp
    moreover have "push_shift n (xs @ gs) g = (xs @ gs) @ [g]"
      using True by (intro push_shift_short) simp
    ultimately show ?thesis
      using True by simp
  next
    case False
    define k where "k = length xs + length gs - n"
    have k: "k \<le> length (xs @ gs)" "length (xs @ gs) - k = n"
      using False by (simp_all add: k_def)
    have "push_shift n (drop k (xs @ gs)) g = tl (drop k (xs @ gs) @ [g])"
      using k by (intro push_shift_full) simp
    also have "drop k (xs @ gs) @ [g] = drop k ((xs @ gs) @ [g])"
      using k(1) by simp
    also have "tl (drop k ((xs @ gs) @ [g])) = drop (Suc k) ((xs @ gs) @ [g])"
      by (simp only: drop_Suc tl_drop)
    also have "Suc k = length xs + length (gs @ [g]) - n"
      using False by (simp add: k_def)
    finally show ?thesis
      using ys by (simp add: k_def)
  qed
qed

lemma feed_history:
  "feed gs r = (Inr outs, r') \<Longrightarrow>
   gestureHistory r' = foldl (push_shift gestureHistorySize) (gestureHistory r) gs"
proof (induction gs arbitrary: r outs r')
  case Nil
  then show ?case by simp
next
  case (Cons g gs)
  from stabilize_post [of g r] obtain q where
    q: "stabilize g r = (Inr (lastStableGesture q), q)"
    and hq: "gestureHistory q = push_shift gestureHistorySize (gestureHistory r) g" by blast
  from feed_total [of gs q] obtain outs' q' where f: "feed gs q = (Inr outs', q')" by blast
  from Cons.prems q f have "r' = q'" by simp
  with Cons.IH [OF f] hq show ?case by simp
qed

text \<open>The last \<open>k\<close> frames of identical labels, seen from the state before the last one.\<close>

lemma feed_replicate_last:
  assumes "length (gestureHistory r) \<le> gestureHistorySize"
  shows "\<exists>outs q r'. feed (replicate k g) r = (Inr outs, q)
           \<and> stabilize g q = (Inr (lastStableGesture r'), r')
           \<and> feed (replicate (Suc k) g) r = (Inr (outs @ [lastStableGesture r']), r')
           \<and> gestureHistory r' =
               drop (length (gestureHistory r) + Suc k - gestureHistorySize)
                 (gestureHistory r @ replicate (Suc k) g)
           \<and> (\<forall>g0. 6 * length (gestureHistory r') \<le> 10 * count_list (gestureHistory r') g0
                  \<longrightarrow> lastStableGesture r' = g0)"
proof -
  from feed_total [of "replicate k g" r] obtain outs q where
    f: "feed (replicate k g) r = (Inr outs, q)" by blast
  from stabilize_post [of g q] obtain r' where
    st: "stabilize g q = (Inr (lastStableGesture r'), r')"
    and adopt: "\<forall>g0. 6 * length (gestureHistory r') \<le> 10 * count_list (gestureHistory r') g0
                  \<longrightarrow> lastStableGesture r' = g0"
    by blast
  have "replicate (Suc k) g = replicate k g @ [g]"
    by (simp add: replicate_append_same)
  with feed_snoc [OF f st]
  have f': "feed (replicate (Suc k) g) r = (Inr (outs @ [lastStableGesture r']), r')"
    by simp
  from feed_history [OF f'] assms
  have "gestureHistory r' =
          drop (length (gestureHistory r) + Suc k - gestureHistorySize)
            (gestureHistory r @ replicate (Suc k) g)"
    by (simp add: foldl_push_shift del: replicate_Suc)
  with f st f' adopt show ?thesis by blast
qed

subsection \<open>Five frames of one label, then frames of another\<close>

lemma count_list_replicate_eq: "count_list (replicate n a) b = (if a = b then n else 0)"
  by (induction n) auto

lemma count_list_drop_le: "count_list (drop i xs) g \<le> count_list xs g"
proof -
  have "count_list xs g = count_list (take i xs) g + count_list (drop i xs) g"
    by (metis append_take_drop_id count_list_append)
  then show ?thesis by simp
qed

text \<open>
  The history holds the five \<open>A\<close> and, after them, \<open>j < 5\<close> frames of \<open>B\<close>; \<open>zs\<close> is what
  is left of the history \<open>ys0\<close> that preceded the five \<open>A\<close>. One more \<open>B\<close> leaves the stable
  label alone: \<open>B\<close> and the labels of \<open>zs\<close> stay under 60%, and if \<open>A\<close> reaches 60% now
  it already did so after the fifth \<open>A\<close>, when it was adopted.
\<close>

lemma B_step:
  assumes AB: "A \<noteq> B"
    and P: "6 * (length ys0 + 5) \<le> 10 * (count_list ys0 A + 5) \<longrightarrow> s5 = A"
    and hist: "gestureHistory r = zs @ replicate 5 A @ replicate j B"
    and len: "length zs + 5 + j \<le> 10" and j: "j < 5"
    and cover: "length ys0 \<le> length zs + j"
    and cnt: "count_list zs A \<le> count_list ys0 A"
    and stable: "lastStableGesture r = s5"
  shows "\<exists>r' zs'. stabilize B r = (Inr s5, r')
            \<and> gestureHistory r' = zs' @ replicate 5 A @ replicate (Suc j) B
            \<and> length zs' + 5 + Suc j \<le> 10 \<and> length ys0 \<le> length zs' + Suc j
            \<and> count_list zs' A \<le> count_list ys0 A \<and> lastStableGesture r' = s5"
proof -
  from stabilize_post [of B r] obtain r' where
    st: "stabilize B r = (Inr (lastStableGesture r'), r')"
    and h': "gestureHistory r' = push_shift gestureHistorySize (gestureHistory r) B"
    and adopt: "\<forall>g0. 6 * length (gestureHistory r') \<le> 10 * count_list (gestureHistory r') g0
                  \<longrightarrow> lastStableGesture r' = g0"
    and keep: "(\<forall>g0. 10 * count_list (gestureHistory r') g0 < 6 * length (gestureHistory r'))
                  \<longrightarrow> lastStableGesture r' = lastStableGesture r"
    by blast
  define zs' where "zs' = (if length zs + 5 + j = 10 then tl zs else zs)"
  have snocB: "replicate j B @ [B] = replicate (Suc j) B"
    by (simp add: replicate_append_same)
  have h'': "gestureHistory r' = zs' @ replicate 5 A @ replicate (Suc j) B"
  proof (cases "length zs + 5 + j = 10")
    case True
    then have "zs \<noteq> []" using j by auto
    then have "tl ((zs @ replicate 5 A @ replicate j B) @ [B])
               = tl zs @ replicate 5 A @ replicate j B @ [B]"
      by simp
    moreover have "push_shift gestureHistorySize (gestureHistory r) B
               = tl ((zs @ replicate 5 A @ replicate j B) @ [B])"
      unfolding hist using True by (intro push_shift_full) (simp add: gestureHistorySize_def)
    ultimately show ?thesis
      using True h' snocB by (simp add: zs'_def del: replicate_Suc)
  next
    case False
    have "push_shift gestureHistorySize (gestureHistory r) B
               = (zs @ replicate 5 A @ replicate j B) @ [B]"
      unfolding hist using False len
      by (intro push_shift_short) (simp add: gestureHistorySize_def)
    then show ?thesis
      using False h' snocB by (simp add: zs'_def del: replicate_Suc)
  qed
  have len': "length zs' + 5 + Suc j \<le> 10"
    using len j by (auto simp: zs'_def)
  have cover': "length ys0 \<le> length zs' + Suc j"
    using cover by (auto simp: zs'_def)
  have cnt': "count_list zs' A \<le> count_list ys0 A"
    using cnt count_list_tl_le [of zs A] by (auto simp: zs'_def)
  have total: "length (gestureHistory r') = length zs' + 5 + Suc j"
    using h'' by simp
  have s: "lastStableGesture r' = s5"
  proof (cases "\<exists>g0. 6 * length (gestureHistory r') \<le> 10 * count_list (gestureHistory r') g0")
    case True
    then obtain g0 where
      g0: "6 * length (gestureHistory r') \<le> 10 * count_list (gestureHistory r') g0" by blast
    with adopt have is_g0: "lastStableGesture r' = g0" by blast
    have c: "count_list (gestureHistory r') g0 =
               count_list zs' g0 + (if A = g0 then 5 else 0) + (if B = g0 then Suc j else 0)"
      unfolding h'' by (simp add: count_list_replicate_eq del: replicate_Suc)
    have zle: "count_list zs' g0 \<le> length zs'" by (rule count_le_length)
    have "g0 = A"
    proof (rule ccontr)
      assume "g0 \<noteq> A"
      then have "count_list (gestureHistory r') g0 \<le> length zs' + Suc j"
        using c zle by auto
      with g0 total len' show False by linarith
    qed
    then have "count_list (gestureHistory r') g0 = count_list zs' A + 5"
      using c AB by auto
    with g0 total have "6 * (length zs' + 5 + Suc j) \<le> 10 * (count_list zs' A + 5)"
      by simp
    moreover have "6 * (length ys0 + 5) \<le> 6 * (length zs' + 5 + Suc j)"
      using cover' by simp
    moreover have "10 * (count_list zs' A + 5) \<le> 10 * (count_list ys0 A + 5)"
      using cnt' by simp
    ultimately have "6 * (length ys0 + 5) \<le> 10 * (count_list ys0 A + 5)"
      by (meson order_trans)
    with P have "s5 = A" by blast
    with is_g0 \<open>g0 = A\<close> show ?thesis by simp
  next
    case False
    then have "\<forall>g0. 10 * count_list (gestureHistory r') g0 < 6 * length (gestureHistory r')"
      by (simp add: not_le)
    with keep stable show ?thesis by simp
  qed
  from st s h'' len' cover' cnt' show ?thesis by auto
qed

lemma B_phase:
  assumes AB: "A \<noteq> B"
    and P: "6 * (length ys0 + 5) \<le> 10 * (count_list ys0 A + 5) \<longrightarrow> s5 = A"
  shows "gestureHistory r = zs @ replicate 5 A @ replicate j B \<Longrightarrow>
         length zs + 5 + j \<le> 10 \<Longrightarrow> j + n \<le> 5 \<Longrightarrow> length ys0 \<le> length zs + j \<Longrightarrow>
         count_list zs A \<le> count_list ys0 A \<Longrightarrow> lastStableGesture r = s5 \<Longrightarrow>
         \<exists>r'. feed (replicate n B) r = (Inr (replicate n s5), r') \<and> lastStableGesture r' = s5"
proof (induction n arbitrary: r zs j)
  case 0
  then show ?case by simp
next
  case (Suc n)
  from Suc.prems(3) have j: "j < 5" by simp
  from B_step [OF AB P Suc.prems(1,2) j Suc.prems(4,5,6)] obtain r1 zs1 where
    st: "stabilize B r = (Inr s5, r1)"
    and h1: "gestureHistory r1 = zs1 @ replicate 5 A @ replicate (Suc j) B"
    and l1: "length zs1 + 5 + Suc j \<le> 10" and c1: "length ys0 \<le> length zs1 + Suc j"
    and n1: "count_list zs1 A \<le> count_list ys0 A" and s1: "lastStableGesture r1 = s5"
    by blast
  from Suc.prems(3) have "Suc j + n \<le> 5" by simp
  from Suc.IH [OF h1 l1 this c1 n1 s1] obtain r' where
    f: "feed (replicate n B) r1 = (Inr (replicate n s5), r')" and s': "lastStableGesture r' = s5"
    by blast
  from feed_Cons [OF st f] s' show ?case by simp
qed

text \<open>On a history of \<open>k < 10\<close> frames of \<open>A\<close> alone, every further \<open>A\<close> emits \<open>A\<close>.\<close>

lemma A_phase:
  "gestureHistory r = replicate k A \<Longrightarrow> k + n \<le> 10 \<Longrightarrow>
   \<exists>r'. feed (replicate n A) r = (Inr (replicate n A), r')
       \<and> gestureHistory r' = replicate (k + n) A \<and> (0 < n \<longrightarrow> lastStableGesture r' = A)"
proof (induction n arbitrary: r k)
  case 0
  then show ?case by simp
next
  case (Suc n)
  from stabilize_post [of A r] obtain r1 where
    st: "stabilize A r = (Inr (lastStableGesture r1), r1)"
    and h1: "gestureHistory r1 = push_shift gestureHistorySize (gestureHistory r) A"
    and adopt: "\<forall>g0. 6 * length (gestureHistory r1) \<le> 10 * count_list (gestureHistory r1) g0
                  \<longrightarrow> lastStableGesture r1 = g0"
    by blast
  have "push_shift gestureHistorySize (replicate k A) A = replicate k A @ [A]"
    using Suc.prems(2) by (intro push_shift_short) (simp add: gestureHistorySize_def)
  then have h1': "gestureHistory r1 = replicate (Suc k) A"
    using h1 Suc.prems(1) by (simp add: replicate_append_same)
  then have "6 * length (gestureHistory r1) \<le> 10 * count_list (gestureHistory r1) A"
    by (simp add: count_list_replicate_eq del: replicate_Suc)
  with adopt have s1: "lastStableGesture r1 = A" by blast
  from Suc.prems(2) have "Suc k + n \<le> 10" by simp
  from Suc.IH [OF h1' this] obtain r' where
    f: "feed (replicate n A) r1 = (Inr (replicate n A), r')"
    and h': "gestureHistory r' = replicate (Suc k + n) A"
    and s': "0 < n \<longrightarrow> lastStableGesture r' = A"
    by blast
  have "lastStableGesture r' = A"
  proof (cases n)
    case 0
    with f s1 show ?thesis by simp
  next
    case (Suc m)
    with s' show ?thesis by simp
  qed
  with feed_Cons [OF st f] s1 h' show ?case by simp
qed

section \<open>The stabilizer claim\<close>

text \<open>
  C3. The majority-vote stabilizer with buffer capacity 10 and confidence threshold 60%,
  on any recognizer whose gesture history is within its capacity. Feeding 10 consecutive
  frames of one raw label \<open>L\<close> makes \<open>L\<close> the stable output. Feeding 5 frames of \<open>A\<close> and
  then 5 frames of a different label \<open>B\<close>: none of the five \<open>B\<close> frames changes the stable
  label, each of them emits the label that was stable after the fifth \<open>A\<close>. On a new
  recognizer that label is \<open>A\<close>: all ten frames emit \<open>A\<close>, and \<open>B\<close> never becomes stable.
\<close>

theorem majority_vote_stabilizer:
  assumes "length (gestureHistory r) \<le> gestureHistorySize" and "A \<noteq> B"
  shows "(\<exists>outs r'. feed (replicate 10 L) r = (Inr outs, r') \<and> last outs = L
            \<and> lastStableGesture r' = L)
       \<and> (\<exists>outsA rA rB. feed (replicate 5 A) r = (Inr outsA, rA)
            \<and> feed (replicate 5 B) rA = (Inr (replicate 5 (lastStableGesture rA)), rB)
            \<and> lastStableGesture rB = lastStableGesture rA)
       \<and> (\<exists>rA rB. feed (replicate 5 A) (constructor p) = (Inr (replicate 5 A), rA)
            \<and> feed (replicate 5 B) rA = (Inr (replicate 5 A), rB)
            \<and> lastStableGesture rB = A)"
proof (intro conjI)
  from feed_replicate_last [OF assms(1), of 9 L] obtain outs r' where
    f: "feed (replicate (Suc 9) L) r = (Inr (outs @ [lastStableGesture r']), r')"
    and h: "gestureHistory r' =
              drop (length (gestureHistory r) + Suc 9 - gestureHistorySize)
                (gestureHistory r @ replicate (Suc 9) L)"
    and adopt: "\<forall>g0. 6 * length (gestureHistory r') \<le> 10 * count_list (gestureHistory r') g0
                  \<longrightarrow> lastStableGesture r' = g0"
    by blast
  have "gestureHistory r' = replicate 10 L"
    using h by (simp add: gestureHistorySize_def del: replicate_Suc)
  then have "6 * length (gestureHistory r') \<le> 10 * count_list (gestureHistory r') L"
    by (simp add: count_list_replicate_eq)
  with adopt have "lastStableGesture r' = L" by blast
  moreover have "Suc 9 = 10" by simp
  ultimately show "\<exists>outs r'. feed (replicate 10 L) r = (Inr outs, r') \<and> last outs = L
            \<and> lastStableGesture r' = L"
    using f by (metis last_snoc)
next
  from feed_replicate_last [OF assms(1), of 4 A] obtain outs rA where
    f: "feed (replicate (Suc 4) A) r = (Inr (outs @ [lastStableGesture rA]), rA)"
    and h: "gestureHistory rA =
              drop (length (gestureHistory r) + Suc 4 - gestureHistorySize)
                (gestureHistory r @ replicate (Suc 4) A)"
    and adopt: "\<forall>g0. 6 * length (gestureHistory rA) \<le> 10 * count_list (gestureHistory rA) g0
                  \<longrightarrow> lastStableGesture rA = g0"
    by blast
  define ys0 where "ys0 = drop (length (gestureHistory r) - 5) (gestureHistory r)"
  have five: "Suc 4 = 5" by simp
  have hA: "gestureHistory rA = ys0 @ replicate 5 A @ replicate 0 B"
    using h assms(1) unfolding five by (simp add: gestureHistorySize_def ys0_def)
  have l0: "length ys0 + 5 + 0 \<le> 10"
    using assms(1) by (simp add: ys0_def gestureHistorySize_def)
  have P: "6 * (length ys0 + 5) \<le> 10 * (count_list ys0 A + 5) \<longrightarrow> lastStableGesture rA = A"
    using adopt hA by (simp add: count_list_replicate_eq)
  from B_phase [OF assms(2) P hA l0, of 5] obtain rB where
    "feed (replicate 5 B) rA = (Inr (replicate 5 (lastStableGesture rA)), rB)"
    "lastStableGesture rB = lastStableGesture rA"
    by auto
  with f show "\<exists>outsA rA rB. feed (replicate 5 A) r = (Inr outsA, rA)
            \<and> feed (replicate 5 B) rA = (Inr (replicate 5 (lastStableGesture rA)), rB)
            \<and> lastStableGesture rB = lastStableGesture rA"
    unfolding five by blast
next
  have "gestureHistory (constructor p) = replicate 0 A"
    by (simp add: constructor_def)
  from A_phase [OF this, of 5] obtain rA where
    f: "feed (replicate 5 A) (constructor p) = (Inr (replicate 5 A), rA)"
    and hA: "gestureHistory rA = replicate 5 A" and sA: "lastStableGesture rA = A"
    by auto
  have hA': "gestureHistory rA = [] @ replicate 5 A @ replicate 0 B"
    using hA by simp
  have P: "6 * (length ([]::gesture list) + 5) \<le> 10 * (count_list [] A + 5) \<longrightarrow> A = A"
    by simp
  from B_phase [OF assms(2) P hA' _ _ _ _ sA, of 5] obtain rB where
    "feed (replicate 5 B) rA = (Inr (replicate 5 A), rB)" "lastStableGesture rB = A"
    by auto
  with f show "\<exists>rA rB. feed (replicate 5 A) (constructor p) = (Inr (replicate 5 A), rA)
            \<and> feed (replicate 5 B) rA = (Inr (replicate 5 A), rB)
            \<and> lastStableGesture rB = A"
    by blast
qed

theorem majority_vote_stabilizer_witness:
  "length (gestureHistory (constructor None)) \<le> gestureHistorySize
   \<and> PINCH \<noteq> OPEN_PALM
   \<and> (\<exists>outs r'. feed (replicate 10 CLOSED) (constructor None) = (Inr outs, r')
         \<and> last outs = CLOSED \<and> lastStableGesture r' = CLOSED)
   \<and> (\<exists>rA rB. feed (replicate 5 PINCH) (constructor None) = (Inr (replicate 5 PINCH), rA)
         \<and> feed (replicate 5 OPEN_PALM) rA = (Inr (replicate 5 PINCH), rB)
         \<and> lastStableGesture rB = PINCH)"
proof -
  have l: "length (gestureHistory (constructor None)) \<le> gestureHistorySize"
    by (simp add: constructor_def)
  have d: "PINCH \<noteq> OPEN_PALM" by simp
  show ?thesis
    using majority_vote_stabilizer [OF l d, of CLOSED None] l by simp
qed

end
